theory Spec2Isabelle
  imports Complex_Main "HOL-Library.Log_Nat" "HOL-Library.AList" "HOL-Library.Multiset"
begin

section \<open>Python values used by \<open>app.py\<close>\<close>

subsection \<open>Exceptions\<close>

text \<open>
  The exceptions that the core of \<open>app.py\<close> can raise.  A computation that may raise
  has a result of type \<open>exn + 'a\<close>, with \<open>Inl\<close> for the raised exception.
\<close>

datatype exn = ValueError | IndexError | KeyError | OverflowError | ZeroDivisionError

subsection \<open>Floats\<close>

text \<open>
  A Python \<open>float\<close> is an IEEE 754 binary64 value.  A finite value is represented by the
  rational number it denotes (positive and negative zero are identified: Python's
  comparisons do not distinguish them, and no operation of \<open>app.py\<close> divides by a zero);
  the infinities and NaN are separate constructors.  Every arithmetic operation computes
  the exact rational result and rounds it with \<open>rnd64\<close> (round to nearest, ties to even,
  53 bits of precision, gradual underflow, overflow to an infinity).
\<close>

datatype pyfloat = Fin rat | PInf | NInf | NaN

definition round_half_even :: "rat \<Rightarrow> int" where
  "round_half_even x =
     (let f = \<lfloor>x\<rfloor>; d = x - of_int f
      in if d < 1 / 2 then f else if 1 / 2 < d then f + 1 else if even f then f else f + 1)"

definition pow2 :: "int \<Rightarrow> rat" where
  "pow2 e = (if 0 \<le> e then 2 ^ nat e else 1 / 2 ^ nat (- e))"

text \<open>The binary exponent of a positive rational: \<open>pow2 (bexp x) \<le> x < pow2 (bexp x + 1)\<close>.\<close>

definition bexp :: "rat \<Rightarrow> int" where
  "bexp x =
     (case quotient_of x of (a, b) \<Rightarrow>
        (let d = bitlen a - bitlen b in if pow2 d \<le> x then d else d - 1))"

definition rnd_pos :: "rat \<Rightarrow> pyfloat" where
  "rnd_pos x =
     (let q = max (bexp x) (- 1022) - 52;
          y = of_int (round_half_even (x / pow2 q)) * pow2 q
      in if 2 ^ 1024 \<le> y then PInf else Fin y)"

fun fneg :: "pyfloat \<Rightarrow> pyfloat" where
  "fneg (Fin x) = Fin (- x)"
| "fneg PInf = NInf"
| "fneg NInf = PInf"
| "fneg NaN = NaN"

definition rnd64 :: "rat \<Rightarrow> pyfloat" where
  "rnd64 x = (if x = 0 then Fin 0 else if 0 < x then rnd_pos x else fneg (rnd_pos (- x)))"

text \<open>Addition \<open>a + b\<close> of two floats.\<close>

fun fadd :: "pyfloat \<Rightarrow> pyfloat \<Rightarrow> pyfloat" where
  "fadd NaN _ = NaN"
| "fadd _ NaN = NaN"
| "fadd PInf NInf = NaN"
| "fadd NInf PInf = NaN"
| "fadd PInf _ = PInf"
| "fadd _ PInf = PInf"
| "fadd NInf _ = NInf"
| "fadd _ NInf = NInf"
| "fadd (Fin x) (Fin y) = rnd64 (x + y)"

text \<open>Multiplication \<open>a * b\<close> of two floats.\<close>

definition fsign :: "pyfloat \<Rightarrow> int" where
  "fsign a = (case a of Fin x \<Rightarrow> sgn \<lfloor>sgn x\<rfloor> | PInf \<Rightarrow> 1 | NInf \<Rightarrow> - 1 | NaN \<Rightarrow> 0)"

fun fmul :: "pyfloat \<Rightarrow> pyfloat \<Rightarrow> pyfloat" where
  "fmul NaN _ = NaN"
| "fmul _ NaN = NaN"
| "fmul (Fin x) (Fin y) = rnd64 (x * y)"
| "fmul a b =
     (let s = fsign a * fsign b in if s = 0 then NaN else if 0 < s then PInf else NInf)"

text \<open>
  True division \<open>a / b\<close> of two floats: Python raises \<open>ZeroDivisionError\<close> when the
  divisor is zero.
\<close>

fun fdiv :: "pyfloat \<Rightarrow> pyfloat \<Rightarrow> exn + pyfloat" where
  "fdiv a (Fin y) =
     (if y = 0 then Inl ZeroDivisionError
      else Inr (case a of Fin x \<Rightarrow> rnd64 (x / y) | NaN \<Rightarrow> NaN
                | _ \<Rightarrow> if 0 < y then a else fneg a))"
| "fdiv a NaN = Inr NaN"
| "fdiv (Fin x) _ = Inr (Fin 0)"
| "fdiv _ _ = Inr NaN"

text \<open>The comparisons \<open>a < b\<close>, \<open>a > b\<close> and \<open>a \<le> b\<close>: every comparison with NaN is false.\<close>

fun flt :: "pyfloat \<Rightarrow> pyfloat \<Rightarrow> bool" where
  "flt NaN _ = False"
| "flt _ NaN = False"
| "flt (Fin x) (Fin y) = (x < y)"
| "flt _ NInf = False"
| "flt PInf _ = False"
| "flt _ _ = True"

definition fgt :: "pyfloat \<Rightarrow> pyfloat \<Rightarrow> bool" where
  "fgt a b = flt b a"

definition fle :: "pyfloat \<Rightarrow> pyfloat \<Rightarrow> bool" where
  "fle a b = (a \<noteq> NaN \<and> b \<noteq> NaN \<and> \<not> flt b a)"

text \<open>
  \<open>round(x)\<close> with one argument rounds half to even and returns an \<open>int\<close>; it raises
  \<open>ValueError\<close> on NaN and \<open>OverflowError\<close> on an infinity.
\<close>

fun py_round :: "pyfloat \<Rightarrow> exn + int" where
  "py_round (Fin x) = Inr (round_half_even x)"
| "py_round NaN = Inl ValueError"
| "py_round _ = Inl OverflowError"

text \<open>
  \<open>round(x, 2)\<close> returns the float nearest to the decimal with two fractional digits
  that is nearest to \<open>x\<close> (ties to even); infinities and NaN round to themselves.
\<close>

fun py_round2 :: "pyfloat \<Rightarrow> pyfloat" where
  "py_round2 (Fin x) = rnd64 (of_int (round_half_even (x * 100)) / 100)"
| "py_round2 a = a"

text \<open>
  \<open>a / b\<close> on two \<open>int\<close>s is the correctly rounded quotient as a float; it raises
  \<open>ZeroDivisionError\<close> for \<open>b = 0\<close> and \<open>OverflowError\<close> when the quotient is too
  large for a float.
\<close>

definition int_truediv :: "int \<Rightarrow> int \<Rightarrow> exn + pyfloat" where
  "int_truediv a b =
     (if b = 0 then Inl ZeroDivisionError
      else case rnd64 (of_int a / of_int b) of
             Fin y \<Rightarrow> Inr (Fin y)
           | _ \<Rightarrow> Inl OverflowError)"

fun math_floor :: "pyfloat \<Rightarrow> exn + int" where
  "math_floor (Fin x) = Inr \<lfloor>x\<rfloor>"
| "math_floor NaN = Inl ValueError"
| "math_floor _ = Inl OverflowError"

text \<open>\<open>x < n\<close> for a float \<open>x\<close> and an \<open>int\<close> \<open>n\<close> compares the exact values.\<close>

definition flt_int :: "pyfloat \<Rightarrow> int \<Rightarrow> bool" where
  "flt_int a n = flt a (Fin (of_int n))"

text \<open>Subtraction \<open>a - b\<close>, the absolute value \<open>fabs\<close> and the test for a finite value.\<close>

definition fsub :: "pyfloat \<Rightarrow> pyfloat \<Rightarrow> pyfloat" where
  "fsub a b = fadd a (fneg b)"

fun fabs :: "pyfloat \<Rightarrow> pyfloat" where
  "fabs (Fin x) = Fin \<bar>x\<bar>"
| "fabs NaN = NaN"
| "fabs _ = PInf"

fun is_finite :: "pyfloat \<Rightarrow> bool" where
  "is_finite (Fin x) = True"
| "is_finite _ = False"

text \<open>
  The builtin \<open>sum\<close> on floats depends on the interpreter.  Up to CPython 3.11 it adds
  the items from left to right, starting from the \<open>int\<close> 0.  From CPython 3.12 on it
  keeps, beside the running sum \<open>f_result\<close>, a compensation \<open>c\<close> of the rounding
  errors (Neumaier's summation), which it adds at the end when it is finite and not
  zero.  Every function that calls \<open>sum\<close> takes the interpreter as its first argument.
\<close>

datatype interpreter = Plain_Sum | Compensated_Sum

fun compensated :: "pyfloat \<Rightarrow> pyfloat \<Rightarrow> pyfloat list \<Rightarrow> pyfloat" where
  "compensated f_result c [] =
     (if c \<noteq> Fin 0 \<and> is_finite c then fadd f_result c else f_result)"
| "compensated f_result c (x # xs) =
     (let t = fadd f_result x;
          c' = (if fle (fabs x) (fabs f_result)
                then fadd c (fadd (fsub f_result t) x)
                else fadd c (fadd (fsub x t) f_result))
      in compensated t c' xs)"

definition py_sum :: "interpreter \<Rightarrow> pyfloat list \<Rightarrow> pyfloat" where
  "py_sum py xs =
     (case py of
        Plain_Sum \<Rightarrow> foldl fadd (Fin 0) xs
      | Compensated_Sum \<Rightarrow>
          (case xs of [] \<Rightarrow> Fin 0 | x # rest \<Rightarrow> compensated (fadd (Fin 0) x) (Fin 0) rest))"

text \<open>
  An \<open>int\<close> that meets a float in an arithmetic operation is converted to the nearest
  float; the conversion raises \<open>OverflowError\<close> when the \<open>int\<close> is too large.
\<close>

definition int_to_float :: "int \<Rightarrow> exn + pyfloat" where
  "int_to_float n =
     (case rnd64 (of_int n) of Fin y \<Rightarrow> Inr (Fin y) | _ \<Rightarrow> Inl OverflowError)"

text \<open>\<open>sum(xs) / len(xs)\<close>.\<close>

definition py_mean :: "interpreter \<Rightarrow> pyfloat list \<Rightarrow> exn + pyfloat" where
  "py_mean py xs =
     (case int_to_float (int (length xs)) of
        Inl e \<Rightarrow> Inl e
      | Inr n \<Rightarrow> fdiv (py_sum py xs) n)"

subsection \<open>Strings\<close>

text \<open>
  A text is a list of characters with code points below 256.  The following are
  \<open>str.isspace\<close> and the line boundaries of \<open>str.splitlines\<close> on that range.
\<close>

definition is_space :: "char \<Rightarrow> bool" where
  "is_space c =
     (c \<in> set [CHR 0x09, CHR 0x0A, CHR 0x0B, CHR 0x0C, CHR 0x0D, CHR 0x1C, CHR 0x1D,
               CHR 0x1E, CHR 0x1F, CHR 0x20, CHR 0x85, CHR 0xA0])"

definition is_linebreak :: "char \<Rightarrow> bool" where
  "is_linebreak c =
     (c \<in> set [CHR 0x0A, CHR 0x0B, CHR 0x0C, CHR 0x0D, CHR 0x1C, CHR 0x1D, CHR 0x1E,
               CHR 0x85])"

text \<open>
  \<open>s.splitlines()\<close>: the lines of \<open>s\<close> without their line breaks; a carriage return
  followed by a line feed is one line break.  The first argument is the line read so far.
\<close>

fun splitlines_from :: "string \<Rightarrow> string \<Rightarrow> string list" where
  "splitlines_from acc [] = (if acc = [] then [] else [acc])"
| "splitlines_from acc [c] = (if is_linebreak c then [acc] else [acc @ [c]])"
| "splitlines_from acc (c # d # cs) =
     (if c = CHR 0x0D \<and> d = CHR 0x0A then acc # splitlines_from [] cs
      else if is_linebreak c then acc # splitlines_from [] (d # cs)
      else splitlines_from (acc @ [c]) (d # cs))"

definition splitlines :: "string \<Rightarrow> string list" where
  "splitlines s = splitlines_from [] s"

text \<open>\<open>s.strip()\<close> removes the whitespace at both ends.\<close>

definition strip :: "string \<Rightarrow> string" where
  "strip s = rev (dropWhile is_space (rev (dropWhile is_space s)))"

text \<open>
  \<open>s.split()\<close>: the maximal runs of characters that are not whitespace.  The first
  argument is the token read so far.
\<close>

fun split_from :: "string \<Rightarrow> string \<Rightarrow> string list" where
  "split_from acc [] = (if acc = [] then [] else [acc])"
| "split_from acc (c # cs) =
     (if is_space c then (if acc = [] then split_from [] cs else acc # split_from [] cs)
      else split_from (acc @ [c]) cs)"

definition py_split :: "string \<Rightarrow> string list" where
  "py_split s = split_from [] s"

text \<open>\<open>s.split(":", 1)\<close> for an \<open>s\<close> that contains a colon: the parts around the first colon.\<close>

definition split_colon :: "string \<Rightarrow> string \<times> string" where
  "split_colon s =
     (takeWhile (\<lambda>c. c \<noteq> CHR '':'') s, tl (dropWhile (\<lambda>c. c \<noteq> CHR '':'') s))"

definition startswith :: "string \<Rightarrow> string \<Rightarrow> bool" where
  "startswith s p = (take (length p) s = p)"

text \<open>\<open>s.replace(',', '.')\<close>.\<close>

definition replace_comma :: "string \<Rightarrow> string" where
  "replace_comma s = map (\<lambda>c. if c = CHR '','' then CHR ''.'' else c) s"

text \<open>\<open>xs.index(x)\<close>: the first position of \<open>x\<close>, or \<open>None\<close> where Python raises \<open>ValueError\<close>.\<close>

fun list_index :: "'a list \<Rightarrow> 'a \<Rightarrow> int option" where
  "list_index [] x = None"
| "list_index (y # ys) x =
     (if y = x then Some 0 else map_option (\<lambda>i. i + 1) (list_index ys x))"

text \<open>
  The subscript \<open>xs[i]\<close>.  A position from 0 to \<open>len(xs) - 1\<close> is read directly, a
  position from \<open>- len(xs)\<close> to \<open>- 1\<close> is read from the end, and any other position
  raises \<open>IndexError\<close>.
\<close>

definition getitem :: "'a list \<Rightarrow> int \<Rightarrow> exn + 'a" where
  "getitem xs i =
     (if 0 \<le> i \<and> i < int (length xs) then Inr (xs ! nat i)
      else if i < 0 \<and> - int (length xs) \<le> i then Inr (xs ! nat (int (length xs) + i))
      else Inl IndexError)"

subsection \<open>The constructor \<open>float(s)\<close> on a string\<close>

definition is_digit :: "char \<Rightarrow> bool" where
  "is_digit c = (c \<in> set ''0123456789'')"

definition digit_val :: "char \<Rightarrow> nat" where
  "digit_val c = length (takeWhile (\<lambda>d. d \<noteq> c) ''0123456789'')"

text \<open>The number written by a string of digits, most significant digit first.\<close>

definition digits_val :: "string \<Rightarrow> nat" where
  "digits_val ds = foldl (\<lambda>n c. 10 * n + digit_val c) 0 ds"

text \<open>
  An underscore is accepted between two digits and ignored; anywhere else it makes the
  string invalid.  The first argument is the previous character.
\<close>

fun drop_underscores :: "char \<Rightarrow> string \<Rightarrow> string option" where
  "drop_underscores prev [] = (if prev = CHR ''_'' then None else Some [])"
| "drop_underscores prev (c # cs) =
     (if c = CHR ''_''
      then (if is_digit prev then drop_underscores c cs else None)
      else if prev = CHR ''_'' \<and> \<not> is_digit c then None
      else map_option ((#) c) (drop_underscores c cs))"

text \<open>An optional sign: the sign \<open>1\<close> or \<open>- 1\<close> and the rest of the string.\<close>

fun take_sign :: "string \<Rightarrow> int \<times> string" where
  "take_sign [] = (1, [])"
| "take_sign (c # cs) =
     (if c = CHR ''-'' then (- 1, cs) else if c = CHR ''+'' then (1, cs) else (1, c # cs))"

text \<open>
  The exponent part: empty, or \<open>e\<close> or \<open>E\<close>, an optional sign and at least one digit,
  up to the end of the string.
\<close>

definition parse_exponent :: "string \<Rightarrow> int option" where
  "parse_exponent s =
     (case s of
        [] \<Rightarrow> Some 0
      | c # cs \<Rightarrow>
          if c = CHR ''e'' \<or> c = CHR ''E''
          then (case take_sign cs of
                  (sg, ds) \<Rightarrow> if ds \<noteq> [] \<and> list_all is_digit ds
                              then Some (sg * int (digits_val ds)) else None)
          else None)"

definition pow10 :: "int \<Rightarrow> rat" where
  "pow10 e = (if 0 \<le> e then 10 ^ nat e else 1 / 10 ^ nat (- e))"

text \<open>
  An unsigned decimal number: digits with an optional point, at least one digit in all,
  and an optional exponent.  The result is its exact value.
\<close>

definition parse_decimal :: "string \<Rightarrow> rat option" where
  "parse_decimal s =
     (let ip = takeWhile is_digit s;
          r1 = dropWhile is_digit s;
          has_point = (r1 \<noteq> [] \<and> hd r1 = CHR ''.'');
          fp = (if has_point then takeWhile is_digit (tl r1) else []);
          r2 = (if has_point then dropWhile is_digit (tl r1) else r1)
      in if ip = [] \<and> fp = [] then None
         else case parse_exponent r2 of
                None \<Rightarrow> None
              | Some e \<Rightarrow>
                  Some (of_nat (digits_val (ip @ fp)) / 10 ^ length fp * pow10 e))"

text \<open>The words \<open>inf\<close>, \<open>infinity\<close> and \<open>nan\<close> are matched without regard to case.\<close>

definition lower_ascii :: "char \<Rightarrow> char" where
  "lower_ascii c =
     (case map_of (zip ''ABCDEFGHIJKLMNOPQRSTUVWXYZ'' ''abcdefghijklmnopqrstuvwxyz'') c of
        None \<Rightarrow> c | Some d \<Rightarrow> d)"

definition parse_inf_or_nan :: "string \<Rightarrow> pyfloat option" where
  "parse_inf_or_nan s =
     (let w = map lower_ascii s
      in if w = ''inf'' \<or> w = ''infinity'' then Some PInf
         else if w = ''nan'' then Some NaN else None)"

text \<open>
  \<open>float(s)\<close>: after the underscores and the surrounding whitespace are removed, a sign
  followed by a decimal number, which is rounded to the nearest float, or by one of the
  special words; \<open>ValueError\<close> otherwise.
\<close>

definition py_float :: "string \<Rightarrow> exn + pyfloat" where
  "py_float s =
     (case drop_underscores (CHR 0x00) s of
        None \<Rightarrow> Inl ValueError
      | Some t \<Rightarrow>
          (case take_sign (strip t) of
             (sg, body) \<Rightarrow>
               (case parse_decimal body of
                  Some v \<Rightarrow> Inr (rnd64 (of_int sg * v))
                | None \<Rightarrow>
                    (case parse_inf_or_nan body of
                       Some a \<Rightarrow> Inr (if sg < 0 then fneg a else a)
                     | None \<Rightarrow> Inl ValueError))))"

section \<open>The parser \<open>parse_sdp_file\<close>\<close>

text \<open>
  A data point is the dictionary with the keys \<open>rpm\<close>, \<open>torque\<close> and \<open>hp\<close>, both as a
  decoded sample and as an aggregated bin.
\<close>

record point =
  rpm :: int
  torque :: pyfloat
  hp :: pyfloat

text \<open>
  \<open>config_data\<close> is a dictionary from strings to strings; the association list keeps
  Python's insertion order, and \<open>AList.update\<close> is the assignment \<open>d[k] = v\<close>.
\<close>

type_synonym config = "(string \<times> string) list"

record parsed =
  config :: config
  data :: "point list"

text \<open>
  \<open>parse_sdp_file\<close> returns \<open>None\<close> after one of two messages, which are the two fatal
  errors: the message about the column that was not found (with the name from the
  exception of \<open>index\<close>), and the message that no data point was found above 5500 RPM.
  An exception that leaves the function is the third kind.
\<close>

datatype error = MissingColumn string | NoDataAboveThreshold | Uncaught exn

definition sentinel :: string where
  "sentinel = ''PRIMARY_CHANNEL_CURVE_FIT_DATA''"

definition terminator :: string where
  "terminator = ''FULL_SET_COAST_DOWN_FIT_DATA''"

definition time_col :: string where
  "time_col = ''Time_(Sec)''"

definition header_keys :: "string list" where
  "header_keys = [''Gear_Ratio'', ''Roller_Diameter'', ''Roller_Mass'', ''Actual_MOI'']"

definition rpm_col :: string where
  "rpm_col = ''RPM1_Motor_(rad/s)''"

definition tq_col :: string where
  "tq_col = ''Motor_Torque_(N.m)''"

definition pwr_col :: string where
  "pwr_col = ''Power_(W)''"

text \<open>The float literals \<open>9.5493\<close> and \<open>745.7\<close>.\<close>

definition rad_s_to_rpm :: pyfloat where
  "rad_s_to_rpm = rnd64 (95493 / 10000)"

definition watt_per_hp :: pyfloat where
  "watt_per_hp = rnd64 (7457 / 10)"

text \<open>The first loop: the configuration lines up to the sentinel line.\<close>

fun scan_config :: "config \<Rightarrow> string list \<Rightarrow> config" where
  "scan_config config_data [] = config_data"
| "scan_config config_data (line # rest) =
     (let config_data' =
            (if CHR '':'' \<in> set line
             then (case split_colon line of
                     (key, val) \<Rightarrow>
                       if strip key \<in> set header_keys
                       then AList.update (strip key) (strip val) config_data
                       else config_data)
             else config_data)
      in if strip line = sentinel then config_data' else scan_config config_data' rest)"

text \<open>
  The body of the \<open>try\<close> block for one data row: \<open>Inr None\<close> is the \<open>continue\<close> for a
  row below 5500 RPM, \<open>Inr (Some p)\<close> the appended point, \<open>Inl e\<close> a raised exception.
\<close>

definition decode_row :: "string list \<Rightarrow> int \<Rightarrow> int \<Rightarrow> int \<Rightarrow> exn + point option" where
  "decode_row values rpm_i tq_i pwr_i =
     (case getitem values rpm_i of Inl e \<Rightarrow> Inl e | Inr rpm_tok \<Rightarrow>
      case py_float (replace_comma rpm_tok) of Inl e \<Rightarrow> Inl e | Inr x \<Rightarrow>
      let rpm_f = fmul x rad_s_to_rpm
      in if flt_int rpm_f 5500 then Inr None
         else
           case py_round rpm_f of Inl e \<Rightarrow> Inl e | Inr r \<Rightarrow>
           case getitem values tq_i of Inl e \<Rightarrow> Inl e | Inr tq_tok \<Rightarrow>
           case py_float (replace_comma tq_tok) of Inl e \<Rightarrow> Inl e | Inr t \<Rightarrow>
           case getitem values pwr_i of Inl e \<Rightarrow> Inl e | Inr pwr_tok \<Rightarrow>
           case py_float (replace_comma pwr_tok) of Inl e \<Rightarrow> Inl e | Inr w \<Rightarrow>
           case fdiv w watt_per_hp of Inl e \<Rightarrow> Inl e | Inr h \<Rightarrow>
             Inr (Some \<lparr>rpm = r, torque = py_round2 t, hp = py_round2 h\<rparr>))"

text \<open>The variables of the second loop.\<close>

record scan_state =
  data_started :: bool
  header_found :: bool
  rpm_idx :: int
  tq_idx :: int
  pwr_idx :: int
  performance_data :: "point list"

definition init_state :: scan_state where
  "init_state =
     \<lparr>data_started = False, header_found = False, rpm_idx = - 1, tq_idx = - 1,
      pwr_idx = - 1, performance_data = []\<rparr>"

text \<open>
  The second loop.  \<open>Inr\<close> carries \<open>performance_data\<close> at the end of the loop (at the
  end of the lines or at the \<open>break\<close>), \<open>Inl\<close> the early \<open>return None\<close> for a missing
  column or an exception that the \<open>except\<close> clause does not catch.
\<close>

fun scan_data :: "scan_state \<Rightarrow> string list \<Rightarrow> error + point list" where
  "scan_data st [] = Inr (performance_data st)"
| "scan_data st (raw # rest) =
     (let line = strip raw
      in if line = sentinel then scan_data (st\<lparr>data_started := True\<rparr>) rest
         else if \<not> data_started st then scan_data st rest
         else if startswith line terminator then Inr (performance_data st)
         else if \<not> header_found st \<and> startswith line time_col then
           (let headers = py_split line
            in case list_index headers rpm_col of
                 None \<Rightarrow> Inl (MissingColumn rpm_col)
               | Some i \<Rightarrow>
                   (case list_index headers tq_col of
                      None \<Rightarrow> Inl (MissingColumn tq_col)
                    | Some j \<Rightarrow>
                        (case list_index headers pwr_col of
                           None \<Rightarrow> Inl (MissingColumn pwr_col)
                         | Some k \<Rightarrow>
                             scan_data
                               (st\<lparr>rpm_idx := i, tq_idx := j, pwr_idx := k,
                                   header_found := True\<rparr>) rest)))
         else if header_found st \<and> line \<noteq> [] then
           (let values = py_split line
            in if int (length values) \<le> max (max (rpm_idx st) (tq_idx st)) (pwr_idx st)
               then scan_data st rest
               else
                 (case decode_row values (rpm_idx st) (tq_idx st) (pwr_idx st) of
                    Inl ValueError \<Rightarrow> scan_data st rest
                  | Inl IndexError \<Rightarrow> scan_data st rest
                  | Inl e \<Rightarrow> Inl (Uncaught e)
                  | Inr None \<Rightarrow> scan_data st rest
                  | Inr (Some p) \<Rightarrow>
                      scan_data (st\<lparr>performance_data := performance_data st @ [p]\<rparr>) rest))
         else scan_data st rest)"

definition parse_sdp_file :: "string \<Rightarrow> error + parsed" where
  "parse_sdp_file file_content =
     (let lines = splitlines file_content;
          config_data = scan_config [] lines
      in case scan_data init_state lines of
           Inl e \<Rightarrow> Inl e
         | Inr samples \<Rightarrow>
             if samples = [] then Inl NoDataAboveThreshold
             else Inr \<lparr>config = config_data, data = samples\<rparr>)"

section \<open>The aggregation \<open>aggregate_data_by_rpm\<close>\<close>

text \<open>\<open>math.floor(point['rpm'] / increment) * increment\<close>.\<close>

definition bin_key :: "int \<Rightarrow> point \<Rightarrow> exn + int" where
  "bin_key increment p =
     (case int_truediv (rpm p) increment of
        Inl e \<Rightarrow> Inl e
      | Inr q \<Rightarrow> (case math_floor q of Inl e \<Rightarrow> Inl e | Inr f \<Rightarrow> Inr (f * increment)))"

text \<open>
  \<open>bins\<close> is a dictionary from a bin key to the torque values and the hp values of the
  bin, in insertion order.
\<close>

type_synonym bins = "(int \<times> (pyfloat list \<times> pyfloat list)) list"

text \<open>The first loop: every point is appended to the lists of its bin.\<close>

fun fill_bins :: "int \<Rightarrow> bins \<Rightarrow> point list \<Rightarrow> exn + bins" where
  "fill_bins increment bins [] = Inr bins"
| "fill_bins increment bins (p # ps) =
     (case bin_key increment p of
        Inl e \<Rightarrow> Inl e
      | Inr k \<Rightarrow>
          (let bins1 = (if map_of bins k = None then AList.update k ([], []) bins else bins);
               bins2 = AList.map_entry k (\<lambda>(ts, hs). (ts @ [torque p], hs @ [hp p])) bins1
           in fill_bins increment bins2 ps))"

text \<open>The second loop, over the sorted keys; the second argument is \<open>aggregated_results\<close>.\<close>

fun emit_bins :: "interpreter \<Rightarrow> bins \<Rightarrow> point list \<Rightarrow> int list \<Rightarrow> exn + point list" where
  "emit_bins py bins aggregated_results [] = Inr aggregated_results"
| "emit_bins py bins aggregated_results (rpm_key # keys) =
     (case map_of bins rpm_key of
        None \<Rightarrow> Inl KeyError
      | Some (torques, hps) \<Rightarrow>
          (case py_mean py torques of
             Inl e \<Rightarrow> Inl e
           | Inr avg_torque \<Rightarrow>
               (case py_mean py hps of
                  Inl e \<Rightarrow> Inl e
                | Inr avg_hp \<Rightarrow>
                    emit_bins py bins
                      (aggregated_results @
                         [\<lparr>rpm = rpm_key, torque = py_round2 avg_torque,
                           hp = py_round2 avg_hp\<rparr>])
                      keys)))"

definition aggregate_data_by_rpm ::
  "interpreter \<Rightarrow> point list \<Rightarrow> int \<Rightarrow> exn + point list" where
  "aggregate_data_by_rpm py data_in increment =
     (if data_in = [] then Inr []
      else case fill_bins increment [] data_in of
             Inl e \<Rightarrow> Inl e
           | Inr bins \<Rightarrow> emit_bins py bins [] (sort (map fst bins)))"

section \<open>The report builder \<open>process_file_content\<close>\<close>

text \<open>
  \<open>max(xs, key=f)\<close>: a linear scan that replaces the current maximum by an item whose
  key is greater; \<open>ValueError\<close> on an empty list.
\<close>

fun max_from :: "('a \<Rightarrow> pyfloat) \<Rightarrow> 'a \<Rightarrow> 'a list \<Rightarrow> 'a" where
  "max_from key best [] = best"
| "max_from key best (x # xs) =
     (if fgt (key x) (key best) then max_from key x xs else max_from key best xs)"

fun py_max :: "('a \<Rightarrow> pyfloat) \<Rightarrow> 'a list \<Rightarrow> exn + 'a" where
  "py_max key [] = Inl ValueError"
| "py_max key (x # xs) = Inr (max_from key x xs)"

record report =
  r_config :: config
  data_points_count :: nat
  peak_power :: point
  peak_torque :: point
  torque_data :: "(int \<times> pyfloat) list"
  hp_data :: "(int \<times> pyfloat) list"
  raw_data :: "point list"
  filename :: string
  aggregated_data :: "point list"

text \<open>
  The result is \<open>Inr None\<close> for the returned \<open>None\<close>, \<open>Inr (Some r)\<close> for the returned
  dictionary and \<open>Inl e\<close> for an exception that leaves the function.
\<close>

definition process_file_content ::
  "interpreter \<Rightarrow> string \<Rightarrow> string \<Rightarrow> exn + report option" where
  "process_file_content py content fname =
     (case parse_sdp_file content of
        Inl (Uncaught e) \<Rightarrow> Inl e
      | Inl _ \<Rightarrow> Inr None
      | Inr p \<Rightarrow>
          if data p = [] then Inr None
          else
            (case py_max hp (data p) of
               Inl e \<Rightarrow> Inl e
             | Inr pp \<Rightarrow>
                 (case py_max torque (data p) of
                    Inl e \<Rightarrow> Inl e
                  | Inr pt \<Rightarrow>
                      (case aggregate_data_by_rpm py (data p) 500 of
                         Inl e \<Rightarrow> Inl e
                       | Inr agg \<Rightarrow>
                           Inr (Some
                             \<lparr>r_config = config p,
                              data_points_count = length (data p),
                              peak_power = pp,
                              peak_torque = pt,
                              torque_data = map (\<lambda>r. (rpm r, torque r)) (data p),
                              hp_data = map (\<lambda>r. (rpm r, hp r)) (data p),
                              raw_data = data p,
                              filename = fname,
                              aggregated_data = agg\<rparr>)))))"

section \<open>The specification's notions\<close>

text \<open>
  The data section of the specification: the lines after the first sentinel line, up to
  the first line that starts with the terminator.  Its column header row is the first
  line that starts with \<open>Time_(Sec)\<close> (lines are compared after trimming).
\<close>

definition spec_after_sentinel :: "string list \<Rightarrow> string list" where
  "spec_after_sentinel lines =
     (case dropWhile (\<lambda>l. strip l \<noteq> sentinel) lines of [] \<Rightarrow> [] | _ # rest \<Rightarrow> rest)"

definition spec_data_section :: "string list \<Rightarrow> string list" where
  "spec_data_section lines =
     takeWhile (\<lambda>l. \<not> startswith (strip l) terminator) (spec_after_sentinel lines)"

definition spec_header_row :: "string list \<Rightarrow> string option" where
  "spec_header_row lines =
     find (\<lambda>l. startswith (strip l) time_col) (spec_data_section lines)"

definition required_cols :: "string list" where
  "required_cols = [rpm_col, tq_col, pwr_col]"

text \<open>
  A sample \<open>p\<close> that is the decoding of a line of \<open>lines\<close>: the token of the line
  in some column is a number whose product with 9.5493 is not below 5500, and the rpm of
  \<open>p\<close> is that product rounded.
\<close>

definition spec_decoded_from :: "string list \<Rightarrow> point \<Rightarrow> bool" where
  "spec_decoded_from lines p =
     (\<exists>l\<in>set lines. \<exists>i tok x.
        getitem (py_split (strip l)) i = Inr tok \<and>
        py_float (replace_comma tok) = Inr x \<and>
        \<not> flt_int (fmul x rad_s_to_rpm) 5500 \<and>
        py_round (fmul x rad_s_to_rpm) = Inr (rpm p))"

text \<open>
  The samples of a bin: the input samples whose key, as the code computes it
  (\<open>math.floor(rpm / width) * width\<close> with the quotient a float), is \<open>k\<close>.
\<close>

definition spec_bin_samples :: "int \<Rightarrow> int \<Rightarrow> point list \<Rightarrow> point list" where
  "spec_bin_samples width k samples = filter (\<lambda>p. bin_key width p = Inr k) samples"

text \<open>The expression \<open>round(sum(vs) / len(vs), 2)\<close> of the code, on a list of floats.\<close>

definition round2_mean :: "interpreter \<Rightarrow> pyfloat list \<Rightarrow> exn + pyfloat" where
  "round2_mean py vs =
     (case py_mean py vs of Inl e \<Rightarrow> Inl e | Inr m \<Rightarrow> Inr (py_round2 m))"

text \<open>
  The arithmetic mean of the specification, on the exact values: the sum of the numbers
  divided by their count; its rounding to two decimals (a tie goes to the even last
  digit); and the float that is nearest to the rounded mean.
\<close>

definition spec_exact_mean :: "rat list \<Rightarrow> rat" where
  "spec_exact_mean vs = sum_list vs / of_nat (length vs)"

definition spec_round2 :: "rat \<Rightarrow> rat" where
  "spec_round2 x =
     (let k = \<lfloor>x * 100\<rfloor>; r = x * 100 - of_int k
      in of_int (if r < 1 / 2 \<or> (r = 1 / 2 \<and> even k) then k else k + 1) / 100)"


text \<open>
  \<open>p\<close> is the sample of \<open>xs\<close> with the maximum \<open>key\<close>, the first one in the order of
  \<open>xs\<close> among those with that value.
\<close>

definition spec_first_max :: "(point \<Rightarrow> pyfloat) \<Rightarrow> point list \<Rightarrow> point \<Rightarrow> bool" where
  "spec_first_max key xs p =
     (list_all (\<lambda>x. fle (key x) (key p)) xs \<and> find (\<lambda>x. key x = key p) xs = Some p)"

text \<open>
  Two strings that are the same except that, at some positions, one has a comma where the
  other has a period.
\<close>

definition sep_char :: "char \<Rightarrow> bool" where
  "sep_char c = (c = CHR '','' \<or> c = CHR ''.'')"

definition sep_equiv :: "string \<Rightarrow> string \<Rightarrow> bool" where
  "sep_equiv a b = list_all2 (\<lambda>c d. c = d \<or> sep_char c \<and> sep_char d) a b"

section \<open>Concrete inputs\<close>

definition LF :: string where
  "LF = [CHR 0x0A]"

definition scenario_header :: "string list" where
  "scenario_header =
     [''Gear_Ratio: 4.10'', ''Roller_Diameter: 8.0'', ''PRIMARY_CHANNEL_CURVE_FIT_DATA'',
      ''Time_(Sec) RPM1_Motor_(rad/s) Motor_Torque_(N.m) Power_(W)'']"

definition scenario_prefix :: string where
  "scenario_prefix =
     ''Gear_Ratio: 4.10'' @ LF @ ''Roller_Diameter: 8.0'' @ LF @
     ''PRIMARY_CHANNEL_CURVE_FIT_DATA'' @ LF @
     ''Time_(Sec) RPM1_Motor_(rad/s) Motor_Torque_(N.m) Power_(W)'' @ LF"

text \<open>The scenario of the specification, with the one row \<open>0.1 600.0 50.0 3000.0\<close>.\<close>

definition scenario :: string where
  "scenario = scenario_prefix @ ''0.1 600.0 50.0 3000.0''"

text \<open>The same with commas as decimal separators in the data row.\<close>

definition scenario_commas :: string where
  "scenario_commas = scenario_prefix @ ''0.1 600,0 50,0 3000,0''"

text \<open>A file whose header row lacks the torque column.\<close>

definition no_torque_file :: string where
  "no_torque_file =
     ''PRIMARY_CHANNEL_CURVE_FIT_DATA'' @ LF @
     ''Time_(Sec) RPM1_Motor_(rad/s) Power_(W)'' @ LF @ ''0.1 600.0 3000.0''"

text \<open>A file whose only data row has the angular speed \<open>inf\<close>.\<close>

definition inf_file :: string where
  "inf_file = scenario_prefix @ ''0.1 inf 50.0 3000.0''"

text \<open>A file whose first data row has the power \<open>nan\<close>, followed by the scenario's row.\<close>

definition nan_file :: string where
  "nan_file = scenario_prefix @ ''0.1 600.0 50.0 nan'' @ LF @ ''0.2 600.0 50.0 3000.0''"

text \<open>The report of the scenario.\<close>

definition scenario_sample :: point where
  "scenario_sample = \<lparr>rpm = 5730, torque = Fin 50, hp = rnd64 (402 / 100)\<rparr>"

definition scenario_report :: report where
  "scenario_report =
     \<lparr>r_config = [(''Gear_Ratio'', ''4.10''), (''Roller_Diameter'', ''8.0'')],
      data_points_count = 1,
      peak_power = scenario_sample,
      peak_torque = scenario_sample,
      torque_data = [(5730, Fin 50)],
      hp_data = [(5730, rnd64 (402 / 100))],
      raw_data = [scenario_sample],
      filename = ''run.sdp'',
      aggregated_data = [\<lparr>rpm = 5500, torque = Fin 50, hp = rnd64 (402 / 100)\<rparr>]\<rparr>"

definition nan_first :: point where
  "nan_first = \<lparr>rpm = 5730, torque = Fin 50, hp = NaN\<rparr>"

definition nan_second :: point where
  "nan_second = \<lparr>rpm = 5730, torque = Fin 50, hp = rnd64 (402 / 100)\<rparr>"

definition nan_report :: report where
  "nan_report =
     \<lparr>r_config = [(''Gear_Ratio'', ''4.10''), (''Roller_Diameter'', ''8.0'')],
      data_points_count = 2,
      peak_power = nan_first,
      peak_torque = nan_first,
      torque_data = [(5730, Fin 50), (5730, Fin 50)],
      hp_data = [(5730, NaN), (5730, rnd64 (402 / 100))],
      raw_data = [nan_first, nan_second],
      filename = ''run.sdp'',
      aggregated_data = [\<lparr>rpm = 5500, torque = Fin 50, hp = NaN\<rparr>]\<rparr>"

text \<open>
  Three samples of one bin whose torque values are \<open>2 ^ 1023\<close>, \<open>2 ^ 1023\<close> and
  \<open>- 2 ^ 1023\<close>, in two orders.  (\<open>2 ^ 1023\<close> is a float, written
  \<open>8.98846567431158e+307\<close>, and \<open>round(x, 2)\<close> leaves it unchanged.)
\<close>

definition big_val :: rat where
  "big_val = 2 ^ 1023"

definition big :: point where
  "big = \<lparr>rpm = 5730, torque = Fin big_val, hp = Fin 1\<rparr>"

definition big_neg :: point where
  "big_neg = \<lparr>rpm = 5730, torque = Fin (- big_val), hp = Fin 1\<rparr>"

definition order_a :: "point list" where
  "order_a = [big, big, big_neg]"

definition order_b :: "point list" where
  "order_b = [big, big_neg, big]"

text \<open>Two samples of the bin 5500 and one of the bin 6000.\<close>

definition three_samples :: "point list" where
  "three_samples =
     [\<lparr>rpm = 5730, torque = Fin 50, hp = Fin 4\<rparr>,
      \<lparr>rpm = 6100, torque = Fin 60, hp = Fin 5\<rparr>,
      \<lparr>rpm = 5990, torque = Fin 51, hp = Fin 6\<rparr>]"

text \<open>The same samples with the sample of the bin 6000 moved to the front.\<close>

definition three_samples_moved :: "point list" where
  "three_samples_moved =
     [\<lparr>rpm = 6100, torque = Fin 60, hp = Fin 5\<rparr>,
      \<lparr>rpm = 5730, torque = Fin 50, hp = Fin 4\<rparr>,
      \<lparr>rpm = 5990, torque = Fin 51, hp = Fin 6\<rparr>]"



text \<open>
  A file with three data rows, of which the second and the third have the same torque
  and the same power, and greater ones than the first.
\<close>

definition tie_file :: string where
  "tie_file =
     scenario_prefix @ ''0.1 600.0 40.0 2000.0'' @ LF @ ''0.2 600.0 50.0 3000.0'' @ LF @
     ''0.3 610.0 50.0 3000.0''"

definition tie_first :: point where
  "tie_first = \<lparr>rpm = 5730, torque = Fin 40, hp = rnd64 (268 / 100)\<rparr>"

definition tie_second :: point where
  "tie_second = \<lparr>rpm = 5730, torque = Fin 50, hp = rnd64 (402 / 100)\<rparr>"

definition tie_third :: point where
  "tie_third = \<lparr>rpm = 5825, torque = Fin 50, hp = rnd64 (402 / 100)\<rparr>"

definition tie_report :: report where
  "tie_report =
     \<lparr>r_config = [(''Gear_Ratio'', ''4.10''), (''Roller_Diameter'', ''8.0'')],
      data_points_count = 3,
      peak_power = tie_second,
      peak_torque = tie_second,
      torque_data = [(5730, Fin 40), (5730, Fin 50), (5825, Fin 50)],
      hp_data = [(5730, rnd64 (268 / 100)), (5730, rnd64 (402 / 100)),
                 (5825, rnd64 (402 / 100))],
      raw_data = [tie_first, tie_second, tie_third],
      filename = ''run.sdp'',
      aggregated_data =
        [\<lparr>rpm = 5500, torque = rnd64 (4667 / 100), hp = rnd64 (357 / 100)\<rparr>]\<rparr>"

section \<open>Properties of the float operations\<close>

lemma pow2_powi: "pow2 e = 2 powi e"
  by (simp add: pow2_def power_int_def power_inverse inverse_eq_divide flip: power_one_over)

lemma pow2_pos: "0 < pow2 e"
  by (simp add: pow2_powi)

lemma pow2_add: "pow2 (a + b) = pow2 a * pow2 b"
  by (simp add: pow2_powi power_int_add)

lemma pow2_mono: "a \<le> b \<Longrightarrow> pow2 a \<le> pow2 b"
  by (simp add: pow2_powi power_int_increasing)

lemma pow2_strict_mono: "a < b \<Longrightarrow> pow2 a < pow2 b"
  by (simp add: pow2_powi power_int_strict_increasing)

lemma pow2_nat: "0 \<le> e \<Longrightarrow> pow2 e = 2 ^ nat e"
  by (simp add: pow2_def)

lemma bexp_bounds:
  assumes "0 < x"
  shows "pow2 (bexp x) \<le> x \<and> x < pow2 (bexp x + 1)"
proof -
  obtain a b where q: "quotient_of x = (a, b)" by (cases "quotient_of x")
  have b: "0 < b" using q quotient_of_denom_pos by blast
  have x: "x = of_int a / of_int b" using q by (rule quotient_of_div)
  have a: "0 < a" using assms b x by (simp add: zero_less_divide_iff)
  define la where "la = bitlen a"
  define lb where "lb = bitlen b"
  have la1: "1 \<le> la" and lb1: "1 \<le> lb"
    using a b by (auto simp: la_def lb_def bitlen_alt_def intro: add_nonneg_pos)
  have ba: "2 ^ nat (la - 1) \<le> a" "a < 2 ^ nat la"
    using bitlen_bounds[OF a] by (auto simp: la_def)
  have bb: "2 ^ nat (lb - 1) \<le> b" "b < 2 ^ nat lb"
    using bitlen_bounds[OF b] by (auto simp: lb_def)
  have "(of_int (2 ^ nat (la - 1)) :: rat) \<le> of_int a" using ba(1) by (simp only: of_int_le_iff)
  then have ra1: "pow2 (la - 1) \<le> of_int a" using la1 by (simp add: pow2_nat)
  have "(of_int a :: rat) < of_int (2 ^ nat la)" using ba(2) by (simp only: of_int_less_iff)
  then have ra2: "of_int a < pow2 la" using la1 by (simp add: pow2_nat)
  have "(of_int (2 ^ nat (lb - 1)) :: rat) \<le> of_int b" using bb(1) by (simp only: of_int_le_iff)
  then have rb1: "pow2 (lb - 1) \<le> of_int b" using lb1 by (simp add: pow2_nat)
  have "(of_int b :: rat) < of_int (2 ^ nat lb)" using bb(2) by (simp only: of_int_less_iff)
  then have rb2: "of_int b < pow2 lb" using lb1 by (simp add: pow2_nat)
  note ra = ra1 ra2 and rb = rb1 rb2
  have up: "x < pow2 (la - lb + 1)"
  proof -
    have "x < pow2 la / pow2 (lb - 1)"
      unfolding x using ra rb a b pow2_pos[of "lb - 1"]
      by (intro frac_less) auto
    also have "\<dots> = pow2 (la - lb + 1)"
      using pow2_add[of "la - lb + 1" "lb - 1"] pow2_pos[of "lb - 1"] by (simp add: field_simps)
    finally show ?thesis .
  qed
  have lo: "pow2 (la - lb - 1) \<le> x"
  proof -
    have "pow2 (la - 1) / pow2 lb \<le> x"
      unfolding x using ra rb a b pow2_pos[of "la - 1"] pow2_pos[of lb]
      by (intro frac_le) auto
    moreover have "pow2 (la - 1) / pow2 lb = pow2 (la - lb - 1)"
      using pow2_add[of "la - lb - 1" "lb"] pow2_pos[of "lb"] by (simp add: field_simps)
    ultimately show ?thesis by simp
  qed
  show ?thesis
    using up lo by (auto simp: bexp_def q Let_def la_def lb_def not_le intro: less_imp_le)
qed

lemma bexp_unique:
  assumes "0 < x" "pow2 e \<le> x" "x < pow2 (e + 1)"
  shows "bexp x = e"
proof (rule ccontr)
  assume ne: "bexp x \<noteq> e"
  have B: "pow2 (bexp x) \<le> x" "x < pow2 (bexp x + 1)" using bexp_bounds[OF assms(1)] by auto
  show False
  proof (cases "bexp x < e")
    case True
    then have "pow2 (bexp x + 1) \<le> pow2 e" by (intro pow2_mono) simp
    with B assms show False by simp
  next
    case False
    with ne have "e + 1 \<le> bexp x" by simp
    then have "pow2 (e + 1) \<le> pow2 (bexp x)" by (rule pow2_mono)
    with B assms show False by simp
  qed
qed



lemma round_half_even_ge: "of_int n \<le> x \<Longrightarrow> n \<le> round_half_even x"
  by (auto simp: round_half_even_def Let_def le_floor_iff intro: add_increasing2)

lemma round_half_even_le: "x \<le> of_int n \<Longrightarrow> round_half_even x \<le> n"
proof -
  assume a: "x \<le> of_int n"
  have f: "\<lfloor>x\<rfloor> \<le> n" using a by (simp add: floor_le_iff) 
  show ?thesis
  proof (cases "\<lfloor>x\<rfloor> = n")
    case True
    then have "x - of_int \<lfloor>x\<rfloor> \<le> 0" using a by simp
    then show ?thesis using True by (simp add: round_half_even_def Let_def)
  next
    case False
    with f have "\<lfloor>x\<rfloor> + 1 \<le> n" by simp
    then show ?thesis using f by (auto simp: round_half_even_def Let_def)
  qed
qed

lemma floor_rat_numeral_div [simp]:
  "\<lfloor>numeral a / numeral b :: rat\<rfloor> = numeral a div numeral b"
  by (metis floor_divide_of_int_eq of_int_numeral)

lemma floor_rat_neg_numeral_div [simp]:
  "\<lfloor>- (numeral a / numeral b) :: rat\<rfloor> = - numeral a div numeral b"
  by (metis floor_divide_of_int_eq of_int_numeral of_int_neg_numeral minus_divide_left)

lemma pow2_split53: "pow2 (e + 1) = pow2 53 * pow2 (e - 52)"
proof -
  have "e + 1 = 53 + (e - 52)" by simp
  then show ?thesis by (simp only: pow2_add)
qed

lemma rnd64_normal:
  assumes "pow2 e \<le> x" "x < pow2 (e + 1)" "- 1022 \<le> e" "e \<le> 1022"
  shows "rnd64 x = Fin (of_int (round_half_even (x / pow2 (e - 52))) * pow2 (e - 52))"
proof -
  have x: "0 < x" using assms(1) pow2_pos[of e] by simp
  have be: "bexp x = e" using x assms(1,2) by (rule bexp_unique)
  have "x / pow2 (e - 52) < pow2 (e + 1) / pow2 (e - 52)"
    using assms(2) pow2_pos[of "e - 52"] by (simp add: divide_strict_right_mono)
  also have "pow2 (e + 1) / pow2 (e - 52) = pow2 53"
    using pow2_pos[of "e - 52"] by (simp add: pow2_split53)
  finally have "x / pow2 (e - 52) \<le> of_int (2 ^ 53)" by (simp add: pow2_def)
  then have "round_half_even (x / pow2 (e - 52)) \<le> 2 ^ 53" by (rule round_half_even_le)
  then have "(of_int (round_half_even (x / pow2 (e - 52))) :: rat) \<le> of_int (2 ^ 53)"
    by (simp only: of_int_le_iff)
  then have "of_int (round_half_even (x / pow2 (e - 52))) * pow2 (e - 52) \<le> pow2 53 * pow2 (e - 52)"
    using pow2_pos[of "e - 52"] by (simp add: pow2_def)
  also have "\<dots> = pow2 (e + 1)" by (simp only: pow2_split53)
  also have "\<dots> \<le> pow2 1023" using assms(4) by (intro pow2_mono) simp
  also have "\<dots> < 2 ^ 1024" by (simp add: pow2_def)
  finally have "\<not> 2 ^ 1024 \<le> of_int (round_half_even (x / pow2 (e - 52))) * pow2 (e - 52)"
    by simp
  then show ?thesis
    using x be assms(3) by (simp add: rnd64_def rnd_pos_def Let_def max_def)
qed

lemma pow2_less_cancel: "pow2 a < pow2 b \<Longrightarrow> a < b"
  using pow2_mono[of b a] by (cases "a < b") auto





lemmas rnd_eval = pow2_def round_half_even_def Let_def

lemmas str_eval = strip_def is_space_def py_split_def startswith_def sentinel_def
  terminator_def time_col_def rpm_col_def tq_col_def pwr_col_def replace_comma_def
  getitem_def

lemmas float_parse_eval = py_float_def is_digit_def parse_decimal_def parse_exponent_def
  digits_val_def digit_val_def pow10_def parse_inf_or_nan_def lower_ascii_def

lemma rad_s_to_rpm_value: "rad_s_to_rpm = Fin (5375777990206135 / 562949953421312)"
  by (simp add: rad_s_to_rpm_def rnd64_normal[where e=3] rnd_eval)

lemma watt_per_hp_value: "watt_per_hp = Fin (3279623283330253 / 4398046511104)"
  by (simp add: watt_per_hp_def rnd64_normal[where e=9] rnd_eval)

section \<open>The scenario of the specification\<close>

lemma splitlines_scenario:
  "splitlines scenario = scenario_header @ [''0.1 600.0 50.0 3000.0'']"
  by (simp add: scenario_def scenario_prefix_def scenario_header_def LF_def splitlines_def
      is_linebreak_def)

lemma scan_config_scenario:
  "scan_config [] (scenario_header @ rows) =
     [(''Gear_Ratio'', ''4.10''), (''Roller_Diameter'', ''8.0'')]"
  by (simp add: scenario_header_def split_colon_def strip_def is_space_def header_keys_def
      sentinel_def)

text \<open>After the four header lines of the scenario the loop decodes rows with the columns 1, 2, 3.\<close>

lemma scan_data_scenario_header:
  "scan_data init_state (scenario_header @ rows) =
     scan_data \<lparr>data_started = True, header_found = True, rpm_idx = 1, tq_idx = 2,
                pwr_idx = 3, performance_data = []\<rparr> rows"
  by (simp add: scenario_header_def init_state_def str_eval)

lemma decode_scenario_row:
  "decode_row [''0.1'', ''600.0'', ''50.0'', ''3000.0''] 1 2 3 =
     Inr (Some \<lparr>rpm = 5730, torque = Fin 50, hp = rnd64 (402 / 100)\<rparr>)"
  by (simp add: decode_row_def str_eval float_parse_eval rad_s_to_rpm_value
      watt_per_hp_value flt_int_def
      rnd64_normal[where e=9] rnd64_normal[where e=12] rnd64_normal[where e=11]
      rnd64_normal[where e=5] rnd64_normal[where e=2] rnd_eval)

lemma scan_data_scenario:
  "scan_data init_state (scenario_header @ [''0.1 600.0 50.0 3000.0'']) =
     Inr [\<lparr>rpm = 5730, torque = Fin 50, hp = rnd64 (402 / 100)\<rparr>]"
  unfolding scan_data_scenario_header
  using decode_scenario_row by (simp add: str_eval)

lemma parse_scenario:
  "parse_sdp_file scenario =
     Inr \<lparr>config = [(''Gear_Ratio'', ''4.10''), (''Roller_Diameter'', ''8.0'')],
          data = [\<lparr>rpm = 5730, torque = Fin 50, hp = rnd64 (402 / 100)\<rparr>]\<rparr>"
  unfolding parse_sdp_file_def Let_def splitlines_scenario scan_config_scenario
    scan_data_scenario
  by simp

text \<open>The float written \<open>4.02\<close> and the float written \<open>50.0\<close>.\<close>

lemma float_4_02: "py_float ''4.02'' = Inr (rnd64 (402 / 100))"
  by (simp add: float_parse_eval strip_def is_space_def)

lemma float_50_0: "py_float ''50.0'' = Inr (Fin 50)"
  by (simp add: float_parse_eval strip_def is_space_def rnd64_normal[where e=5] rnd_eval)

text \<open>
  Claim C6.  On the scenario of the specification (the two configuration lines, the
  sentinel, the header row and the row \<open>0.1 600.0 50.0 3000.0\<close>) the parse succeeds
  with exactly one sample, with rpm 5730, torque the float \<open>50.0\<close> and hp the float
  \<open>4.02\<close>, and with the configuration that maps \<open>Gear_Ratio\<close> to \<open>4.10\<close> and
  \<open>Roller_Diameter\<close> to \<open>8.0\<close> and has no other key.
\<close>

theorem C6_scenario:
  "\<exists>t h. py_float ''50.0'' = Inr t \<and> py_float ''4.02'' = Inr h \<and>
     parse_sdp_file scenario =
       Inr \<lparr>config = [(''Gear_Ratio'', ''4.10''), (''Roller_Diameter'', ''8.0'')],
            data = [\<lparr>rpm = 5730, torque = t, hp = h\<rparr>]\<rparr>"
  using parse_scenario float_4_02 float_50_0 by simp

section \<open>The parser\<close>

lemma decode_row_Some:
  assumes "decode_row values i j k = Inr (Some p)"
  shows "5500 \<le> rpm p \<and>
    (\<exists>tok x. getitem values i = Inr tok \<and> py_float (replace_comma tok) = Inr x \<and>
       \<not> flt_int (fmul x rad_s_to_rpm) 5500 \<and> py_round (fmul x rad_s_to_rpm) = Inr (rpm p))"
proof -
  from assms obtain tok x r where
    g: "getitem values i = Inr tok" and f: "py_float (replace_comma tok) = Inr x"
    and nl: "\<not> flt_int (fmul x rad_s_to_rpm) 5500"
    and r: "py_round (fmul x rad_s_to_rpm) = Inr r" and rp: "rpm p = r"
    by (auto simp: decode_row_def Let_def split: sum.splits if_splits)
  from r obtain y where y: "fmul x rad_s_to_rpm = Fin y" "r = round_half_even y"
    by (cases "fmul x rad_s_to_rpm") auto
  from nl y have "of_int 5500 \<le> y" by (simp add: flt_int_def)
  then have "5500 \<le> round_half_even y" by (rule round_half_even_ge)
  with g f nl r rp y show ?thesis by auto
qed

lemma scan_data_step:
  assumes "scan_data st (raw # rest) = res"
  obtains
    (sentinel) "res = scan_data (st\<lparr>data_started := True\<rparr>) rest"
  | (skip) "res = scan_data st rest"
  | (stop) "res = Inr (performance_data st)"
  | (missing) c where "res = Inl (MissingColumn c)"
  | (header) i j k where
      "res = scan_data (st\<lparr>rpm_idx := i, tq_idx := j, pwr_idx := k, header_found := True\<rparr>) rest"
  | (uncaught) e where "e \<noteq> ValueError" "e \<noteq> IndexError" "res = Inl (Uncaught e)"
  | (row) p where
      "decode_row (py_split (strip raw)) (rpm_idx st) (tq_idx st) (pwr_idx st) = Inr (Some p)"
      "res = scan_data (st\<lparr>performance_data := performance_data st @ [p]\<rparr>) rest"
  using assms
  by (simp only: scan_data.simps Let_def split: if_splits option.splits sum.splits exn.splits)
     blast+

lemma spec_decoded_from_Cons: "spec_decoded_from ls p \<Longrightarrow> spec_decoded_from (l # ls) p"
  by (auto simp: spec_decoded_from_def)

lemma scan_data_rows:
  assumes "scan_data st lines = Inr ps" "p \<in> set ps"
  shows "p \<in> set (performance_data st) \<or> (5500 \<le> rpm p \<and> spec_decoded_from lines p)"
  using assms
proof (induction lines arbitrary: st)
  case Nil
  then show ?case by simp
next
  case (Cons raw rest)
  from Cons.prems(1) show ?case
  proof (cases rule: scan_data_step)
    case (row q)
    from Cons.IH[OF row(2)[symmetric] Cons.prems(2)]
    have "p \<in> set (performance_data st) \<or> p = q \<or> (5500 \<le> rpm p \<and> spec_decoded_from rest p)"
      by auto
    moreover have "5500 \<le> rpm q \<and> spec_decoded_from (raw # rest) q"
      using decode_row_Some[OF row(1)] by (auto simp: spec_decoded_from_def)
    ultimately show ?thesis by (auto intro: spec_decoded_from_Cons)
  next
    case sentinel
    from Cons.IH[OF sentinel[symmetric] Cons.prems(2)] show ?thesis
      by (auto intro: spec_decoded_from_Cons)
  next
    case skip
    from Cons.IH[OF skip[symmetric] Cons.prems(2)] show ?thesis
      by (auto intro: spec_decoded_from_Cons)
  next
    case stop
    with Cons.prems(2) show ?thesis by simp
  next
    case (header i j k)
    from Cons.IH[OF header[symmetric] Cons.prems(2)] show ?thesis
      by (auto intro: spec_decoded_from_Cons)
  qed simp_all
qed

lemma parse_Inr_data:
  assumes "parse_sdp_file text = Inr r"
  shows "scan_data init_state (splitlines text) = Inr (data r)" and "data r \<noteq> []"
  using assms by (auto simp: parse_sdp_file_def Let_def split: sum.splits if_splits)

text \<open>
  Claim C2.  When the parse succeeds, every sample of the result has an rpm of at least
  5500, and it is the decoding of a line of the text whose converted RPM value (the
  token read as a float, times 9.5493) is not less than 5500: a row whose converted
  value is less than 5500 is never stored.
\<close>

theorem C2_samples_above_threshold:
  assumes "parse_sdp_file text = Inr r" and "p \<in> set (data r)"
  shows "5500 \<le> rpm p \<and> spec_decoded_from (splitlines text) p"
  using scan_data_rows[OF parse_Inr_data(1)[OF assms(1)] assms(2)]
  by (simp add: init_state_def)

theorem C2_witness:
  "parse_sdp_file scenario =
     Inr \<lparr>config = [(''Gear_Ratio'', ''4.10''), (''Roller_Diameter'', ''8.0'')],
          data = [\<lparr>rpm = 5730, torque = Fin 50, hp = rnd64 (402 / 100)\<rparr>]\<rparr> \<and>
   (5500::int) \<le> 5730 \<and>
   spec_decoded_from (splitlines scenario)
     \<lparr>rpm = 5730, torque = Fin 50, hp = rnd64 (402 / 100)\<rparr>"
  using C2_samples_above_threshold[OF parse_scenario,
      of "\<lparr>rpm = 5730, torque = Fin 50, hp = rnd64 (402 / 100)\<rparr>"]
    parse_scenario
  by simp

section \<open>The aggregation\<close>

text \<open>
  Claim C9.  On the empty sequence of samples \<open>aggregate_data_by_rpm\<close> returns the
  empty sequence, for every bin width (also the width 0, which raises on every other
  input): the guard on the empty input comes first.
\<close>

theorem C9_aggregate_empty: "aggregate_data_by_rpm py [] increment = Inr []"
  by (simp add: aggregate_data_by_rpm_def)


text \<open>The bins after the first loop.\<close>

lemma fill_bins_invariant:
  assumes "fill_bins w bins ps = Inr bins'" "distinct (map fst bins)"
  shows "distinct (map fst bins') \<and>
         (\<forall>p\<in>set ps. \<exists>k. bin_key w p = Inr k) \<and>
         (\<forall>k. map_of bins' k =
            (let new = filter (\<lambda>p. bin_key w p = Inr k) ps;
                 old = (case map_of bins k of None \<Rightarrow> ([], []) | Some v \<Rightarrow> v)
             in if new = [] then map_of bins k
                else Some (fst old @ map torque new, snd old @ map hp new)))"
  using assms
proof (induction ps arbitrary: bins)
  case Nil
  then show ?case by simp
next
  case (Cons p ps)
  from Cons.prems(1) obtain k0 where k0: "bin_key w p = Inr k0"
    by (auto split: sum.splits)
  define bins1 where "bins1 = (if map_of bins k0 = None then AList.update k0 ([], []) bins else bins)"
  define bins2 where "bins2 = AList.map_entry k0 (\<lambda>(ts, hs). (ts @ [torque p], hs @ [hp p])) bins1"
  have run: "fill_bins w bins2 ps = Inr bins'"
    using Cons.prems(1) k0 by (simp add: bins1_def bins2_def Let_def)
  have d1: "distinct (map fst bins1)"
    using Cons.prems(2) by (simp add: bins1_def distinct_update)
  have d2: "distinct (map fst bins2)"
    using d1 by (simp add: bins2_def distinct_map_entry)
  have m1: "map_of bins1 = (if map_of bins k0 = None then (map_of bins)(k0 \<mapsto> ([], [])) else map_of bins)"
    by (simp add: bins1_def update_conv')
  have m2: "map_of bins2 k =
      (if k = k0 then (case map_of bins k0 of None \<Rightarrow> Some ([torque p], [hp p])
                        | Some (ts, hs) \<Rightarrow> Some (ts @ [torque p], hs @ [hp p]))
       else map_of bins k)" for k
    by (auto simp: bins2_def map_of_map_entry m1 split: option.splits)
  note IH = Cons.IH[OF run d2]
  show ?case
  proof (intro conjI allI ballI)
    show "distinct (map fst bins')" using IH by simp
  next
    fix q assume "q \<in> set (p # ps)"
    then show "\<exists>k. bin_key w q = Inr k" using IH k0 by auto
  next
    fix k
    from IH have "map_of bins' k =
            (let new = filter (\<lambda>p. bin_key w p = Inr k) ps;
                 old = (case map_of bins2 k of None \<Rightarrow> ([], []) | Some v \<Rightarrow> v)
             in if new = [] then map_of bins2 k
                else Some (fst old @ map torque new, snd old @ map hp new))" by blast
    then show "map_of bins' k =
            (let new = filter (\<lambda>p. bin_key w p = Inr k) (p # ps);
                 old = (case map_of bins k of None \<Rightarrow> ([], []) | Some v \<Rightarrow> v)
             in if new = [] then map_of bins k
                else Some (fst old @ map torque new, snd old @ map hp new))"
      using k0 by (auto simp: m2 Let_def split: option.splits)
  qed
qed

lemma fill_bins_empty:
  assumes "fill_bins w [] ps = Inr bins'"
  shows "distinct (map fst bins')"
    and "\<forall>p\<in>set ps. \<exists>k. bin_key w p = Inr k"
    and "map_of bins' k = (if spec_bin_samples w k ps = [] then None
           else Some (map torque (spec_bin_samples w k ps), map hp (spec_bin_samples w k ps)))"
  using fill_bins_invariant[OF assms] by (simp_all add: spec_bin_samples_def Let_def)



lemma bin_key_error:
  assumes "bin_key w p = Inl e"
  shows "(w = 0 \<and> e = ZeroDivisionError) \<or> (w \<noteq> 0 \<and> e = OverflowError)"
proof (cases "w = 0")
  case True
  with assms show ?thesis by (simp add: bin_key_def int_truediv_def)
next
  case False
  with assms show ?thesis
    by (cases "rnd64 (of_int (rpm p) / of_int w)") (simp_all add: bin_key_def int_truediv_def)
qed

lemma fill_bins_error:
  "fill_bins w bins ps = Inl e \<Longrightarrow> (w = 0 \<and> e = ZeroDivisionError) \<or> (w \<noteq> 0 \<and> e = OverflowError)"
proof (induction ps arbitrary: bins)
  case Nil
  then show ?case by simp
next
  case (Cons p ps)
  show ?case
  proof (cases "bin_key w p")
    case (Inl e')
    with Cons.prems have "e' = e" by simp
    with Inl show ?thesis using bin_key_error by blast
  next
    case (Inr k)
    with Cons.prems obtain bins2 where "fill_bins w bins2 ps = Inl e"
      by (simp add: Let_def)
    then show ?thesis by (rule Cons.IH)
  qed
qed

lemma fill_bins_fails_iff:
  "(\<exists>e. fill_bins w bins ps = Inl e) \<longleftrightarrow> (\<exists>p\<in>set ps. \<exists>e. bin_key w p = Inl e)"
proof (induction ps arbitrary: bins)
  case Nil
  then show ?case by simp
next
  case (Cons p ps)
  show ?case
  proof (cases "bin_key w p")
    case (Inl e')
    then show ?thesis by auto
  next
    case (Inr k)
    then show ?thesis using Cons.IH by (simp add: Let_def)
  qed
qed

text \<open>The second loop depends on the dictionary only through its lookups.\<close>

lemma emit_bins_cong:
  "map_of b1 = map_of b2 \<Longrightarrow> emit_bins py b1 acc keys = emit_bins py b2 acc keys"
  by (induction keys arbitrary: acc) (auto split: option.splits sum.splits)

lemma emit_bins_Inr:
  assumes "emit_bins py bins acc keys = Inr out"
  shows "\<exists>out'. out = acc @ out' \<and> map rpm out' = keys \<and>
           (\<forall>b\<in>set out'. \<exists>ts hs. map_of bins (rpm b) = Some (ts, hs) \<and>
               round2_mean py ts = Inr (torque b) \<and> round2_mean py hs = Inr (hp b))"
  using assms
proof (induction keys arbitrary: acc)
  case Nil
  then show ?case by simp
next
  case (Cons k keys)
  from Cons.prems obtain ts hs mt mh where
    look: "map_of bins k = Some (ts, hs)" and mt: "py_mean py ts = Inr mt" and mh: "py_mean py hs = Inr mh"
    and rest: "emit_bins py bins (acc @ [\<lparr>rpm = k, torque = py_round2 mt, hp = py_round2 mh\<rparr>]) keys = Inr out"
    by (auto split: option.splits sum.splits)
  from Cons.IH[OF rest] obtain out' where
    o: "out = (acc @ [\<lparr>rpm = k, torque = py_round2 mt, hp = py_round2 mh\<rparr>]) @ out'"
    "map rpm out' = keys"
    "\<forall>b\<in>set out'. \<exists>ts hs. map_of bins (rpm b) = Some (ts, hs) \<and>
               round2_mean py ts = Inr (torque b) \<and> round2_mean py hs = Inr (hp b)"
    by blast
  let ?b = "\<lparr>rpm = k, torque = py_round2 mt, hp = py_round2 mh\<rparr>"
  have a: "out = acc @ (?b # out')" using o(1) by simp
  have b: "map rpm (?b # out') = k # keys" using o(2) by simp
  have c: "\<forall>b\<in>set (?b # out'). \<exists>ts hs. map_of bins (rpm b) = Some (ts, hs) \<and>
               round2_mean py ts = Inr (torque b) \<and> round2_mean py hs = Inr (hp b)"
    using o(3) look mt mh by (simp add: round2_mean_def)
  show ?case by (intro exI[of _ "?b # out'"] conjI a b c)
qed

lemma sort_keys_unique:
  assumes "distinct (xs :: int list)" "distinct ys" "set xs = set ys"
  shows "sort xs = sort ys"
  using assms by (intro sorted_distinct_set_unique) auto

lemma aggregate_Inr:
  assumes "aggregate_data_by_rpm py samples w = Inr out"
  shows "sorted_wrt (<) (map rpm out) \<and>
    set (map rpm out) = {k. \<exists>p\<in>set samples. bin_key w p = Inr k} \<and>
    (\<forall>p\<in>set samples. \<exists>k. bin_key w p = Inr k) \<and>
    (\<forall>b\<in>set out.
        round2_mean py (map torque (spec_bin_samples w (rpm b) samples)) = Inr (torque b) \<and>
        round2_mean py (map hp (spec_bin_samples w (rpm b) samples)) = Inr (hp b))"
proof (cases "samples = []")
  case True
  with assms show ?thesis by (simp add: aggregate_data_by_rpm_def)
next
  case False
  with assms obtain bins where
    fill: "fill_bins w [] samples = Inr bins"
    and emit: "emit_bins py bins [] (sort (map fst bins)) = Inr out"
    by (auto simp: aggregate_data_by_rpm_def split: sum.splits)
  note fb = fill_bins_empty[OF fill]
  from emit_bins_Inr[OF emit] have
    keys: "map rpm out = sort (map fst bins)" and
    vals: "\<forall>b\<in>set out. \<exists>ts hs. map_of bins (rpm b) = Some (ts, hs) \<and>
             round2_mean py ts = Inr (torque b) \<and> round2_mean py hs = Inr (hp b)"
    by auto
  have dom: "set (map fst bins) = {k. spec_bin_samples w k samples \<noteq> []}"
  proof -
    have "set (map fst bins) = dom (map_of bins)" by (simp add: dom_map_of_conv_image_fst)
    also have "\<dots> = {k. spec_bin_samples w k samples \<noteq> []}"
      by (auto simp: fb(3) dom_def)
    finally show ?thesis .
  qed
  have nonempty: "spec_bin_samples w k samples \<noteq> [] \<longleftrightarrow> (\<exists>p\<in>set samples. bin_key w p = Inr k)" for k
    by (auto simp: spec_bin_samples_def filter_empty_conv)
  have 1: "sorted_wrt (<) (map rpm out)"
    using fb(1) by (simp add: keys strict_sorted_iff)
  have 2: "set (map rpm out) = {k. \<exists>p\<in>set samples. bin_key w p = Inr k}"
    unfolding keys using dom nonempty by simp
  have 4: "\<forall>b\<in>set out.
      round2_mean py (map torque (spec_bin_samples w (rpm b) samples)) = Inr (torque b) \<and>
      round2_mean py (map hp (spec_bin_samples w (rpm b) samples)) = Inr (hp b)"
  proof
    fix b assume "b \<in> set out"
    with vals obtain ts hs where
      b: "map_of bins (rpm b) = Some (ts, hs)" "round2_mean py ts = Inr (torque b)"
         "round2_mean py hs = Inr (hp b)" by blast
    from b(1) have "ts = map torque (spec_bin_samples w (rpm b) samples)"
      "hs = map hp (spec_bin_samples w (rpm b) samples)"
      by (auto simp: fb(3) split: if_splits)
    with b show "round2_mean py (map torque (spec_bin_samples w (rpm b) samples)) = Inr (torque b) \<and>
      round2_mean py (map hp (spec_bin_samples w (rpm b) samples)) = Inr (hp b)" by simp
  qed
  show ?thesis by (intro conjI 1 2 fb(2) 4)
qed







text \<open>
  The rounding of \<open>round(x, 2)\<close> is the specification's rounding to two decimals,
  followed by the rounding to the nearest float.
\<close>

lemma spec_round2_eq: "spec_round2 x = of_int (round_half_even (x * 100)) / 100"
  by (auto simp: spec_round2_def round_half_even_def Let_def)

lemma py_round2_spec: "py_round2 (Fin m) = rnd64 (spec_round2 m)"
  by (simp add: spec_round2_eq)



lemma rnd64_minus: "rnd64 (- x) = fneg (rnd64 x)"
proof -
  have inv: "fneg (fneg a) = a" for a by (cases a) simp_all
  consider "x = 0" | "0 < x" | "x < 0" by linarith
  then show ?thesis
    by cases (simp_all add: rnd64_def inv)
qed

lemma rnd64_zero: "rnd64 0 = Fin 0"
  by (simp add: rnd64_def)

lemmas rnd_small = rnd64_normal[where e=0] rnd64_normal[where e=1] rnd64_normal[where e=2]
  rnd64_normal[where e=3] rnd64_normal[where e=4] rnd64_normal[where e=5]
  rnd64_normal[where e=6] rnd64_normal[where e=7] rnd64_normal[where e=8]

lemmas agg_eval = bin_key_def int_truediv_def py_mean_def py_sum_def int_to_float_def
  fsub_def fle_def rnd64_zero rnd64_minus

lemma aggregate_three_samples:
  "aggregate_data_by_rpm py three_samples 500 =
     Inr [\<lparr>rpm = 5500, torque = Fin (101 / 2), hp = Fin 5\<rparr>,
          \<lparr>rpm = 6000, torque = Fin 60, hp = Fin 5\<rparr>]"
  by (cases py)
     (simp_all add: aggregate_data_by_rpm_def three_samples_def agg_eval rnd_small rnd_eval)


lemma mean_50_51: "py_mean py (map Fin [50, 51]) = Inr (Fin (spec_exact_mean [50, 51]))"
  by (cases py) (simp_all add: agg_eval spec_exact_mean_def rnd_small rnd_eval)





section \<open>The report builder\<close>

lemma scan_data_uncaught:
  "scan_data st lines = Inl (Uncaught e) \<Longrightarrow> e \<noteq> ValueError \<and> e \<noteq> IndexError"
proof (induction lines arbitrary: st)
  case Nil
  then show ?case by simp
next
  case (Cons raw rest)
  from Cons.prems show ?case
  proof (cases rule: scan_data_step)
    case sentinel
    then show ?thesis by (rule Cons.IH[OF sym])
  next
    case skip
    then show ?thesis by (rule Cons.IH[OF sym])
  next
    case (header i j k)
    then show ?thesis by (rule Cons.IH[OF sym])
  next
    case (row p)
    from row(2) show ?thesis by (rule Cons.IH[OF sym])
  qed simp_all
qed

lemma py_mean_error: "py_mean py vs = Inl e \<Longrightarrow> e = OverflowError \<or> e = ZeroDivisionError"
  by (auto simp: py_mean_def int_to_float_def split: sum.splits pyfloat.splits if_splits
      elim!: fdiv.elims)

lemma emit_bins_error:
  "emit_bins py bins acc keys = Inl e \<Longrightarrow> e = KeyError \<or> e = OverflowError \<or> e = ZeroDivisionError"
proof (induction keys arbitrary: acc)
  case Nil
  then show ?case by simp
next
  case (Cons k keys)
  then show ?case
    by (auto split: option.splits sum.splits dest: py_mean_error)
qed

lemma aggregate_error: "aggregate_data_by_rpm py xs w = Inl e \<Longrightarrow> e \<noteq> ValueError"
  by (auto simp: aggregate_data_by_rpm_def split: if_splits sum.splits
      dest: fill_bins_error emit_bins_error)

lemma py_max_nonempty: "xs \<noteq> [] \<Longrightarrow> \<exists>m. py_max key xs = Inr m"
  by (cases xs) auto

text \<open>
  Claim C10.  The maximum of the report builder is never taken over an empty sequence:
  \<open>ValueError\<close>, which \<open>max\<close> raises on an empty sequence and which no other step of
  \<open>process_file_content\<close> lets through, never leaves \<open>process_file_content\<close>; and
  whenever the parse returns a result, its samples are not empty and both peak
  computations return a sample.
\<close>

theorem C10_max_never_on_empty:
  "process_file_content py content fname \<noteq> Inl ValueError \<and>
   (\<forall>p. parse_sdp_file content = Inr p \<longrightarrow>
      data p \<noteq> [] \<and> (\<exists>a b. py_max hp (data p) = Inr a \<and> py_max torque (data p) = Inr b))"
proof
  show "process_file_content py content fname \<noteq> Inl ValueError"
  proof (cases "parse_sdp_file content")
    case (Inl err)
    then show ?thesis
    proof (cases err)
      case (Uncaught e)
      with Inl have "scan_data init_state (splitlines content) = Inl (Uncaught e)"
        by (auto simp: parse_sdp_file_def Let_def split: sum.splits if_splits)
      then have "e \<noteq> ValueError" using scan_data_uncaught by blast
      with Inl Uncaught show ?thesis by (simp add: process_file_content_def)
    qed (simp_all add: process_file_content_def)
  next
    case (Inr p)
    then have ne: "data p \<noteq> []" by (rule parse_Inr_data(2))
    obtain a b where ab: "py_max hp (data p) = Inr a" "py_max torque (data p) = Inr b"
      using py_max_nonempty[OF ne] by blast
    show ?thesis
      using Inr ne ab aggregate_error[where xs="data p" and w=500 and py=py]
      by (cases "aggregate_data_by_rpm py (data p) 500") (auto simp: process_file_content_def)
  qed
next
  show "\<forall>p. parse_sdp_file content = Inr p \<longrightarrow>
      data p \<noteq> [] \<and> (\<exists>a b. py_max hp (data p) = Inr a \<and> py_max torque (data p) = Inr b)"
    using parse_Inr_data(2) py_max_nonempty by blast
qed

lemma fle_refl: "a \<noteq> NaN \<Longrightarrow> fle a a"
  by (cases a) (simp_all add: fle_def)

lemma fle_flt_trans: "fle a b \<Longrightarrow> flt b c \<Longrightarrow> flt a c"
  by (cases a; cases b; cases c) (simp_all add: fle_def)

lemma flt_imp_fle: "flt a b \<Longrightarrow> fle a b"
  by (cases a; cases b) (simp_all add: fle_def)

lemma flt_irrefl: "\<not> flt a a"
  by (cases a) simp_all

lemma find_append_Some: "find P xs = Some a \<Longrightarrow> find P (xs @ ys) = Some a"
  by (induction xs) (auto split: if_splits)

lemma find_append_None: "find P xs = None \<Longrightarrow> find P (xs @ ys) = find P ys"
  by (induction xs) (auto split: if_splits)

lemma max_from_first_max:
  assumes "\<forall>x\<in>set (pre @ xs). key x \<noteq> NaN" "spec_first_max key pre best"
  shows "spec_first_max key (pre @ xs) (max_from key best xs)"
  using assms
proof (induction xs arbitrary: pre best)
  case Nil
  then show ?case by simp
next
  case (Cons x xs)
  have all: "list_all (\<lambda>y. fle (key y) (key best)) pre"
    and fnd: "find (\<lambda>y. key y = key best) pre = Some best"
    using Cons.prems(2) by (simp_all add: spec_first_max_def)
  have nn: "key x \<noteq> NaN" using Cons.prems(1) by simp
  have best_in: "best \<in> set pre" using fnd by (auto simp: find_Some_iff)
  then have nb: "key best \<noteq> NaN" using Cons.prems(1) by simp
  have step: "spec_first_max key (pre @ [x]) (if fgt (key x) (key best) then x else best)"
  proof (cases "fgt (key x) (key best)")
    case True
    then have lt: "flt (key best) (key x)" by (simp add: fgt_def)
    have a: "list_all (\<lambda>y. fle (key y) (key x)) (pre @ [x])"
      using all lt nn by (auto simp: list_all_iff intro: flt_imp_fle fle_flt_trans fle_refl)
    have "\<forall>y\<in>set pre. key y \<noteq> key x"
    proof
      fix y assume "y \<in> set pre"
      then have "fle (key y) (key best)" using all by (simp add: list_all_iff)
      then have "flt (key y) (key x)" using lt by (rule fle_flt_trans)
      then show "key y \<noteq> key x" using flt_irrefl by metis
    qed
    then have "find (\<lambda>y. key y = key x) pre = None" by (simp add: find_None_iff)
    then have b: "find (\<lambda>y. key y = key x) (pre @ [x]) = Some x"
      by (simp add: find_append_None)
    from a b True show ?thesis by (simp add: spec_first_max_def)
  next
    case False
    then have "fle (key x) (key best)" using nn nb by (simp add: fle_def fgt_def)
    then have a: "list_all (\<lambda>y. fle (key y) (key best)) (pre @ [x])" using all by simp
    have b: "find (\<lambda>y. key y = key best) (pre @ [x]) = Some best"
      using fnd by (rule find_append_Some)
    from a b False show ?thesis by (simp add: spec_first_max_def)
  qed
  have "spec_first_max key ((pre @ [x]) @ xs)
          (max_from key (if fgt (key x) (key best) then x else best) xs)"
    using Cons.prems(1) step by (intro Cons.IH) simp_all
  then show ?case by (cases "fgt (key x) (key best)") simp_all
qed

lemma py_max_first_max:
  assumes "py_max key xs = Inr m" "\<forall>x\<in>set xs. key x \<noteq> NaN"
  shows "spec_first_max key xs m"
proof (cases xs)
  case Nil
  with assms show ?thesis by simp
next
  case (Cons x rest)
  have "spec_first_max key [x] x"
    using assms(2) Cons by (simp add: spec_first_max_def fle_refl)
  then have "spec_first_max key ([x] @ rest) (max_from key x rest)"
    using assms(2) Cons by (intro max_from_first_max) simp_all
  with assms(1) Cons show ?thesis by simp
qed

lemma process_Some:
  assumes "process_file_content py content fname = Inr (Some r)"
  shows "raw_data r \<noteq> []" "py_max hp (raw_data r) = Inr (peak_power r)"
    "py_max torque (raw_data r) = Inr (peak_torque r)"
    "\<exists>p. parse_sdp_file content = Inr p \<and> data p = raw_data r"
  using assms
  by (auto simp: process_file_content_def split: sum.splits error.splits if_splits)

text \<open>
  Claim C7, as amended.  For every report that is built, the samples are not empty; when
  no sample has the hp NaN, the peak power is the sample with the maximum hp, the first
  one in file order among those with that hp; and when no sample has the torque NaN,
  the peak torque is the sample with the maximum torque, the first one in file order.
\<close>

theorem C7_peaks_without_nan:
  assumes "process_file_content py content fname = Inr (Some r)"
  shows "raw_data r \<noteq> [] \<and>
         ((\<forall>p\<in>set (raw_data r). hp p \<noteq> NaN) \<longrightarrow>
            spec_first_max hp (raw_data r) (peak_power r)) \<and>
         ((\<forall>p\<in>set (raw_data r). torque p \<noteq> NaN) \<longrightarrow>
            spec_first_max torque (raw_data r) (peak_torque r))"
  using process_Some[OF assms] py_max_first_max by blast

lemma rnd64_4_02: "rnd64 (201 / 50) = Fin (1131529406376837 / 281474976710656)"
  by (simp add: rnd64_normal[where e=2] rnd_eval)

lemma rnd64_2_68: "rnd64 (67 / 25) = Fin (6034823500676465 / 2251799813685248)"
  by (simp add: rnd64_normal[where e=1] rnd_eval)

lemma aggregate_scenario:
  "aggregate_data_by_rpm py [scenario_sample] 500 =
     Inr [\<lparr>rpm = 5500, torque = Fin 50, hp = rnd64 (402 / 100)\<rparr>]"
  by (cases py)
     (simp_all add: aggregate_data_by_rpm_def scenario_sample_def agg_eval rnd_small rnd_eval)

lemma process_scenario:
  "process_file_content py scenario ''run.sdp'' = Inr (Some scenario_report)"
  unfolding process_file_content_def parse_scenario
  using aggregate_scenario[of py]
  by (simp add: scenario_report_def scenario_sample_def fgt_def)

lemma splitlines_nan_file:
  "splitlines nan_file = scenario_header @ [''0.1 600.0 50.0 nan'', ''0.2 600.0 50.0 3000.0'']"
  by (simp add: nan_file_def scenario_prefix_def scenario_header_def LF_def splitlines_def
      is_linebreak_def)

lemma decode_nan_row:
  "decode_row [''0.1'', ''600.0'', ''50.0'', ''nan''] 1 2 3 = Inr (Some nan_first)"
  by (simp add: decode_row_def str_eval float_parse_eval rad_s_to_rpm_value
      watt_per_hp_value flt_int_def nan_first_def
      rnd64_normal[where e=9] rnd64_normal[where e=12] rnd64_normal[where e=5] rnd_eval)

lemma decode_second_row:
  "decode_row [''0.2'', ''600.0'', ''50.0'', ''3000.0''] 1 2 3 = Inr (Some nan_second)"
  by (simp add: decode_row_def str_eval float_parse_eval rad_s_to_rpm_value
      watt_per_hp_value flt_int_def nan_second_def
      rnd64_normal[where e=9] rnd64_normal[where e=12] rnd64_normal[where e=11]
      rnd64_normal[where e=5] rnd64_normal[where e=2] rnd_eval)

lemma parse_nan_file:
  "parse_sdp_file nan_file =
     Inr \<lparr>config = [(''Gear_Ratio'', ''4.10''), (''Roller_Diameter'', ''8.0'')],
          data = [nan_first, nan_second]\<rparr>"
  unfolding parse_sdp_file_def Let_def splitlines_nan_file scan_config_scenario
    scan_data_scenario_header
  using decode_nan_row decode_second_row by (simp add: str_eval)

lemma aggregate_nan:
  "aggregate_data_by_rpm py [nan_first, nan_second] 500 =
     Inr [\<lparr>rpm = 5500, torque = Fin 50, hp = NaN\<rparr>]"
  by (cases py)
     (simp_all add: aggregate_data_by_rpm_def nan_first_def nan_second_def agg_eval
       rnd_small rnd_eval)

lemma process_nan_file:
  "process_file_content py nan_file ''run.sdp'' = Inr (Some nan_report)"
  unfolding process_file_content_def parse_nan_file
  using aggregate_nan[of py]
  by (simp add: nan_report_def nan_first_def nan_second_def fgt_def)

text \<open>
  The claim C7 as stated fails on a file whose first data row has the power \<open>nan\<close>:
  the peak power is that first sample, whose hp is NaN, although the second sample has
  the hp 4.02; a scan that replaces the maximum only by a greater value never leaves a
  NaN, since no value compares greater than NaN.
\<close>

theorem C7_counterexample:
  "process_file_content Plain_Sum nan_file ''run.sdp'' = Inr (Some nan_report) \<and>
   process_file_content Compensated_Sum nan_file ''run.sdp'' = Inr (Some nan_report) \<and>
   raw_data nan_report = [nan_first, nan_second] \<and>
   peak_power nan_report = nan_first \<and> hp nan_first = NaN \<and>
   hp nan_second = Fin (1131529406376837 / 281474976710656) \<and>
   \<not> spec_first_max hp (raw_data nan_report) (peak_power nan_report)"
  using process_nan_file rnd64_4_02
  by (simp add: nan_report_def nan_first_def nan_second_def spec_first_max_def fle_def)

text \<open>
  A file with three rows and no NaN: the second and the third row tie for the greatest
  torque and for the greatest hp, and both peaks are the second row.
\<close>

lemma splitlines_tie_file:
  "splitlines tie_file =
     scenario_header @
     [''0.1 600.0 40.0 2000.0'', ''0.2 600.0 50.0 3000.0'', ''0.3 610.0 50.0 3000.0'']"
  by (simp add: tie_file_def scenario_prefix_def scenario_header_def LF_def splitlines_def
      is_linebreak_def)

lemma decode_tie_first:
  "decode_row [''0.1'', ''600.0'', ''40.0'', ''2000.0''] 1 2 3 = Inr (Some tie_first)"
  by (simp add: decode_row_def str_eval float_parse_eval rad_s_to_rpm_value
      watt_per_hp_value flt_int_def tie_first_def
      rnd64_normal[where e=9] rnd64_normal[where e=12] rnd64_normal[where e=10]
      rnd64_normal[where e=5] rnd64_normal[where e=1] rnd_eval)

lemma decode_tie_second:
  "decode_row [''0.2'', ''600.0'', ''50.0'', ''3000.0''] 1 2 3 = Inr (Some tie_second)"
  using decode_second_row by (simp add: tie_second_def nan_second_def)

lemma decode_tie_third:
  "decode_row [''0.3'', ''610.0'', ''50.0'', ''3000.0''] 1 2 3 = Inr (Some tie_third)"
  by (simp add: decode_row_def str_eval float_parse_eval rad_s_to_rpm_value
      watt_per_hp_value flt_int_def tie_third_def
      rnd64_normal[where e=9] rnd64_normal[where e=12] rnd64_normal[where e=11]
      rnd64_normal[where e=5] rnd64_normal[where e=2] rnd_eval)

lemma parse_tie_file:
  "parse_sdp_file tie_file =
     Inr \<lparr>config = [(''Gear_Ratio'', ''4.10''), (''Roller_Diameter'', ''8.0'')],
          data = [tie_first, tie_second, tie_third]\<rparr>"
  unfolding parse_sdp_file_def Let_def splitlines_tie_file scan_config_scenario
    scan_data_scenario_header
  using decode_tie_first decode_tie_second decode_tie_third by (simp add: str_eval)

lemmas rnd_tiny = rnd64_normal[where e="- 50"] rnd64_normal[where e="- 51"]
  rnd64_normal[where e="- 52"] rnd64_normal[where e="- 53"]

lemma aggregate_tie:
  "aggregate_data_by_rpm py [tie_first, tie_second, tie_third] 500 =
     Inr [\<lparr>rpm = 5500, torque = rnd64 (4667 / 100), hp = rnd64 (357 / 100)\<rparr>]"
  by (cases py)
     (simp_all add: aggregate_data_by_rpm_def tie_first_def tie_second_def tie_third_def
       agg_eval rnd_small rnd_tiny rnd_eval)

lemma process_tie_file:
  "process_file_content py tie_file ''run.sdp'' = Inr (Some tie_report)"
  unfolding process_file_content_def parse_tie_file
  using aggregate_tie[of py] rnd64_4_02 rnd64_2_68
  by (simp add: tie_report_def tie_first_def tie_second_def tie_third_def fgt_def)

theorem C7_witness:
  "process_file_content Plain_Sum tie_file ''run.sdp'' = Inr (Some tie_report) \<and>
   process_file_content Compensated_Sum tie_file ''run.sdp'' = Inr (Some tie_report) \<and>
   raw_data tie_report = [tie_first, tie_second, tie_third] \<and>
   hp tie_first \<noteq> NaN \<and> hp tie_second \<noteq> NaN \<and> hp tie_third \<noteq> NaN \<and>
   torque tie_first \<noteq> NaN \<and> torque tie_second \<noteq> NaN \<and> torque tie_third \<noteq> NaN \<and>
   flt (hp tie_first) (hp tie_second) \<and> hp tie_second = hp tie_third \<and>
   flt (torque tie_first) (torque tie_second) \<and> torque tie_second = torque tie_third \<and>
   tie_second \<noteq> tie_third \<and>
   peak_power tie_report = tie_second \<and> peak_torque tie_report = tie_second \<and>
   spec_first_max hp (raw_data tie_report) (peak_power tie_report) \<and>
   spec_first_max torque (raw_data tie_report) (peak_torque tie_report)"
proof -
  have a: "\<forall>p\<in>set (raw_data tie_report). hp p \<noteq> NaN"
    by (simp add: tie_report_def tie_first_def tie_second_def tie_third_def rnd64_4_02
        rnd64_2_68)
  have b: "\<forall>p\<in>set (raw_data tie_report). torque p \<noteq> NaN"
    by (simp add: tie_report_def tie_first_def tie_second_def tie_third_def)
  have c: "flt (hp tie_first) (hp tie_second)"
    by (simp add: tie_first_def tie_second_def rnd64_4_02 rnd64_2_68)
  have d: "raw_data tie_report = [tie_first, tie_second, tie_third]"
    "peak_power tie_report = tie_second" "peak_torque tie_report = tie_second"
    "tie_second \<noteq> tie_third" "flt (torque tie_first) (torque tie_second)"
    "hp tie_second = hp tie_third" "torque tie_second = torque tie_third"
    by (simp_all add: tie_report_def tie_first_def tie_second_def tie_third_def)
  have m: "spec_first_max hp (raw_data tie_report) (peak_power tie_report) \<and>
           spec_first_max torque (raw_data tie_report) (peak_torque tie_report)"
    using C7_peaks_without_nan[OF process_tie_file[of Plain_Sum]] a b by blast
  show ?thesis
    using m a b c d process_tie_file by simp
qed

theorem C10_witness:
  "parse_sdp_file scenario =
     Inr \<lparr>config = [(''Gear_Ratio'', ''4.10''), (''Roller_Diameter'', ''8.0'')],
          data = [scenario_sample]\<rparr> \<and>
   [scenario_sample] \<noteq> [] \<and>
   (\<exists>a b. py_max hp [scenario_sample] = Inr a \<and> py_max torque [scenario_sample] = Inr b) \<and>
   process_file_content Plain_Sum scenario ''run.sdp'' \<noteq> Inl ValueError \<and>
   process_file_content Compensated_Sum scenario ''run.sdp'' \<noteq> Inl ValueError"
  using C10_max_never_on_empty[where py=Plain_Sum and content=scenario and fname="''run.sdp''"]
    C10_max_never_on_empty[where py=Compensated_Sum and content=scenario and fname="''run.sdp''"]
    parse_scenario
  by (simp add: scenario_sample_def)

section \<open>Aggregation and the order of the samples\<close>

lemma aggregate_keys_perm:
  assumes "set xs = set ys"
    and "aggregate_data_by_rpm py xs w = Inr o1" "aggregate_data_by_rpm py ys w = Inr o2"
  shows "map rpm o1 = map rpm o2"
proof -
  have 1: "sorted_wrt (<) (map rpm o1)" "set (map rpm o1) = {k. \<exists>p\<in>set xs. bin_key w p = Inr k}"
    using aggregate_Inr[OF assms(2)] by blast+
  have 2: "sorted_wrt (<) (map rpm o2)" "set (map rpm o2) = {k. \<exists>p\<in>set ys. bin_key w p = Inr k}"
    using aggregate_Inr[OF assms(3)] by blast+
  have "set (map rpm o1) = set (map rpm o2)" using 1(2) 2(2) assms(1) by simp
  then show ?thesis
    using 1(1) 2(1) by (intro sorted_distinct_set_unique) (simp_all add: strict_sorted_iff)
qed

lemma aggregate_same_bins:
  assumes "set xs = set ys"
    and "\<forall>k. spec_bin_samples w k xs = spec_bin_samples w k ys"
  shows "aggregate_data_by_rpm py xs w = aggregate_data_by_rpm py ys w"
proof (cases "xs = []")
  case True
  with assms(1) show ?thesis by simp
next
  case False
  with assms(1) have ne: "xs \<noteq> []" "ys \<noteq> []" by auto
  show ?thesis
  proof (cases "\<exists>p\<in>set xs. \<exists>e. bin_key w p = Inl e")
    case True
    then obtain e1 where e1: "fill_bins w [] xs = Inl e1"
      using fill_bins_fails_iff[of w "[]" xs] by blast
    from True assms(1) obtain e2 where e2: "fill_bins w [] ys = Inl e2"
      using fill_bins_fails_iff[of w "[]" ys] by blast
    have "e1 = e2" using fill_bins_error[OF e1] fill_bins_error[OF e2] by auto
    with e1 e2 ne show ?thesis by (simp add: aggregate_data_by_rpm_def)
  next
    case False
    then have "\<not> (\<exists>e. fill_bins w [] xs = Inl e)" using fill_bins_fails_iff[of w "[]" xs] by blast
    then obtain b1 where b1: "fill_bins w [] xs = Inr b1" by (cases "fill_bins w [] xs") auto
    from False assms(1) have "\<not> (\<exists>e. fill_bins w [] ys = Inl e)"
      using fill_bins_fails_iff[of w "[]" ys] by blast
    then obtain b2 where b2: "fill_bins w [] ys = Inr b2" by (cases "fill_bins w [] ys") auto
    have m: "map_of b1 = map_of b2"
      using fill_bins_empty(3)[OF b1] fill_bins_empty(3)[OF b2] assms(2) by (intro ext) simp
    have "set (map fst b1) = dom (map_of b1)" "set (map fst b2) = dom (map_of b2)"
      by (simp_all add: dom_map_of_conv_image_fst)
    then have "set (map fst b1) = set (map fst b2)" using m by simp
    then have "sort (map fst b1) = sort (map fst b2)"
      using fill_bins_empty(1)[OF b1] fill_bins_empty(1)[OF b2] by (intro sort_keys_unique)
    then show ?thesis
      using ne b1 b2 emit_bins_cong[OF m] by (simp add: aggregate_data_by_rpm_def)
  qed
qed

text \<open>
  Claim C5, as amended.  For a positive bin width and a permutation of the samples:
  when both aggregations return, they return the same sequence of bin keys; and when
  the permutation keeps, within every bin, the samples in their relative order, the two
  results are exactly the same.
\<close>

theorem C5_order_within_bins:
  assumes "0 < width" and "mset xs = mset ys"
  shows "(\<forall>o1 o2. aggregate_data_by_rpm py xs width = Inr o1 \<longrightarrow>
                   aggregate_data_by_rpm py ys width = Inr o2 \<longrightarrow> map rpm o1 = map rpm o2) \<and>
         ((\<forall>k. spec_bin_samples width k xs = spec_bin_samples width k ys) \<longrightarrow>
            aggregate_data_by_rpm py xs width = aggregate_data_by_rpm py ys width)"
proof -
  have s: "set xs = set ys" using assms(2) by (rule mset_eq_setD)
  show ?thesis using aggregate_keys_perm[OF s] aggregate_same_bins[OF s] by blast
qed

lemma aggregate_three_samples_moved:
  "aggregate_data_by_rpm py three_samples_moved 500 =
     Inr [\<lparr>rpm = 5500, torque = Fin (101 / 2), hp = Fin 5\<rparr>,
          \<lparr>rpm = 6000, torque = Fin 60, hp = Fin 5\<rparr>]"
  by (cases py)
     (simp_all add: aggregate_data_by_rpm_def three_samples_moved_def agg_eval rnd_small
       rnd_eval)

lemma three_samples_bins:
  "spec_bin_samples 500 k three_samples = spec_bin_samples 500 k three_samples_moved"
  by (simp add: spec_bin_samples_def three_samples_def three_samples_moved_def
      bin_key_def int_truediv_def rnd_small rnd_eval)

theorem C5_witness:
  "(0::int) < 500 \<and> mset three_samples = mset three_samples_moved \<and>
   three_samples \<noteq> three_samples_moved \<and>
   aggregate_data_by_rpm Plain_Sum three_samples 500 =
     aggregate_data_by_rpm Plain_Sum three_samples_moved 500 \<and>
   aggregate_data_by_rpm Compensated_Sum three_samples 500 =
     aggregate_data_by_rpm Compensated_Sum three_samples_moved 500 \<and>
   aggregate_data_by_rpm Plain_Sum three_samples 500 =
     Inr [\<lparr>rpm = 5500, torque = Fin (101 / 2), hp = Fin 5\<rparr>,
          \<lparr>rpm = 6000, torque = Fin 60, hp = Fin 5\<rparr>]"
proof -
  have m: "mset three_samples = mset three_samples_moved"
    by (simp add: three_samples_def three_samples_moved_def)
  have d: "three_samples \<noteq> three_samples_moved"
    by (simp add: three_samples_def three_samples_moved_def)
  have "aggregate_data_by_rpm py three_samples 500 =
        aggregate_data_by_rpm py three_samples_moved 500" for py
    using C5_order_within_bins[where width=500 and py=py, OF _ m]
      three_samples_bins by simp
  with m d aggregate_three_samples show ?thesis by simp
qed

lemma rnd64_overflow:
  assumes "2 ^ 1024 \<le> x"
  shows "rnd64 x = PInf"
proof -
  have x: "0 < x" using assms by (simp add: less_le_trans[of 0 "2 ^ 1024"])
  define e where "e = bexp x"
  have B: "pow2 e \<le> x" "x < pow2 (e + 1)" using bexp_bounds[OF x] by (auto simp: e_def)
  have "pow2 1024 \<le> x" using assms by (simp add: pow2_def)
  then have "pow2 1024 < pow2 (e + 1)" using B(2) by simp
  then have e: "1024 \<le> e" using pow2_less_cancel[of 1024 "e + 1"] by simp
  have qp: "0 < pow2 (e - 52)" by (rule pow2_pos)
  have "pow2 e = pow2 52 * pow2 (e - 52)" using pow2_add[of 52 "e - 52"] by simp
  then have "pow2 52 \<le> x / pow2 (e - 52)" using B(1) qp by (simp add: pos_le_divide_eq)
  then have "of_int (2 ^ 52) \<le> x / pow2 (e - 52)" by (simp add: pow2_def)
  then have "2 ^ 52 \<le> round_half_even (x / pow2 (e - 52))" by (rule round_half_even_ge)
  then have "(of_int (2 ^ 52) :: rat) \<le> of_int (round_half_even (x / pow2 (e - 52)))"
    by (simp only: of_int_le_iff)
  then have "pow2 52 * pow2 (e - 52) \<le> of_int (round_half_even (x / pow2 (e - 52))) * pow2 (e - 52)"
    using qp by (simp add: pow2_def)
  moreover have "pow2 52 * pow2 (e - 52) = pow2 e" using pow2_add[of 52 "e - 52"] by simp
  moreover have "pow2 1024 \<le> pow2 e" using e by (rule pow2_mono)
  ultimately have "2 ^ 1024 \<le> of_int (round_half_even (x / pow2 (e - 52))) * pow2 (e - 52)"
    by (simp add: pow2_def)
  then show ?thesis
    using x e by (simp add: rnd64_def rnd_pos_def Let_def max_def flip: e_def)
qed

lemma big_val_pos: "0 < big_val"
  by (simp add: big_val_def)

lemma rnd64_big_val: "rnd64 big_val = Fin big_val"
proof -
  have b: "bexp big_val = 1023"
    by (rule bexp_unique) (simp_all add: big_val_def pow2_def)
  have q: "max (1023::int) (- 1022) - 52 = 971" by simp
  have "big_val / pow2 971 = of_int (2 ^ 52)" by (simp add: big_val_def pow2_def)
  then have r: "round_half_even (big_val / pow2 971) = 2 ^ 52"
    by (simp only: round_half_even_def Let_def floor_of_int) simp
  have y: "of_int (round_half_even (big_val / pow2 971)) * pow2 971 = big_val"
    unfolding r by (simp add: big_val_def pow2_def)
  have nb: "\<not> (2 ^ 1024 \<le> big_val)" by (simp add: big_val_def)
  have "rnd_pos big_val = Fin big_val"
    using nb by (simp only: rnd_pos_def Let_def b q y) simp
  then show ?thesis
    using big_val_pos by (simp add: rnd64_def)
qed

lemma rnd64_neg_big_val: "rnd64 (- big_val) = Fin (- big_val)"
  using rnd64_big_val big_val_pos by (simp add: rnd64_def)

lemma rnd64_twice_big_val: "rnd64 (2 * big_val) = PInf"
  by (rule rnd64_overflow) (simp add: big_val_def)

lemma rnd64_third_big_val: "rnd64 (big_val / 3) = Fin (6004799503160661 * 2 ^ 969)"
  by (simp add: big_val_def rnd64_normal[where e=1021] rnd_eval)

lemma round2_third_big_val:
  "py_round2 (Fin (6004799503160661 * 2 ^ 969)) = Fin (6004799503160661 * 2 ^ 969)"
  by (simp add: rnd64_normal[where e=1021] rnd_eval)


lemma aggregate_order_a:
  "aggregate_data_by_rpm py order_a 500 = Inr [\<lparr>rpm = 5500, torque = PInf, hp = Fin 1\<rparr>]"
  by (cases py)
     (simp_all add: aggregate_data_by_rpm_def order_a_def big_def big_neg_def agg_eval
       rnd64_big_val rnd64_twice_big_val big_val_pos rnd_small rnd_eval)

lemma aggregate_order_b:
  "aggregate_data_by_rpm py order_b 500 =
     Inr [\<lparr>rpm = 5500, torque = Fin (6004799503160661 * 2 ^ 969), hp = Fin 1\<rparr>]"
  using rnd64_third_big_val round2_third_big_val big_val_pos
  by (cases py)
     (simp_all add: aggregate_data_by_rpm_def order_b_def big_def big_neg_def agg_eval
       rnd64_big_val rnd_small rnd_eval)

theorem C5_counterexample:
  "(0::int) < 500 \<and> mset order_a = mset order_b \<and>
   aggregate_data_by_rpm Plain_Sum order_a 500 =
     Inr [\<lparr>rpm = 5500, torque = PInf, hp = Fin 1\<rparr>] \<and>
   aggregate_data_by_rpm Plain_Sum order_b 500 =
     Inr [\<lparr>rpm = 5500, torque = Fin (6004799503160661 * 2 ^ 969), hp = Fin 1\<rparr>] \<and>
   aggregate_data_by_rpm Plain_Sum order_a 500 \<noteq> aggregate_data_by_rpm Plain_Sum order_b 500 \<and>
   aggregate_data_by_rpm Compensated_Sum order_a 500 =
     Inr [\<lparr>rpm = 5500, torque = PInf, hp = Fin 1\<rparr>] \<and>
   aggregate_data_by_rpm Compensated_Sum order_b 500 =
     Inr [\<lparr>rpm = 5500, torque = Fin (6004799503160661 * 2 ^ 969), hp = Fin 1\<rparr>] \<and>
   aggregate_data_by_rpm Compensated_Sum order_a 500 \<noteq>
     aggregate_data_by_rpm Compensated_Sum order_b 500"
  unfolding aggregate_order_a aggregate_order_b
  by (simp add: order_a_def order_b_def)

section \<open>The column header row\<close>

lemma list_index_None: "list_index xs x = None \<longleftrightarrow> x \<notin> set xs"
  by (induction xs) auto

lemma sentinel_not_terminator: "\<not> startswith sentinel terminator"
  by (simp add: startswith_def sentinel_def terminator_def)

lemma sentinel_not_time_col: "\<not> startswith sentinel time_col"
  by (simp add: startswith_def sentinel_def time_col_def)

lemma startswith_Cons: "startswith s (c # p) \<Longrightarrow> \<exists>t. s = c # t"
  by (cases s) (simp_all add: startswith_def)

lemma time_col_not_terminator:
  assumes "startswith s time_col"
  shows "\<not> startswith s terminator"
proof
  assume "startswith s terminator"
  then obtain u where u: "s = CHR ''F'' # u"
    unfolding terminator_def by (rule startswith_Cons[THEN exE])
  from assms obtain t where t: "s = CHR ''T'' # t"
    unfolding time_col_def by (rule startswith_Cons[THEN exE])
  from u t show False by simp
qed

lemma list_index_Some: "x \<in> set xs \<Longrightarrow> \<exists>i. list_index xs x = Some i"
  using list_index_None[of xs x] by (cases "list_index xs x") auto

lemma scan_data_header_row:
  assumes "data_started st" "\<not> header_found st" "startswith (strip raw) time_col"
    and "\<not> set required_cols \<subseteq> set (py_split (strip raw))"
  shows "\<exists>name. find (\<lambda>c. c \<notin> set (py_split (strip raw))) required_cols = Some name \<and>
           scan_data st (raw # rest) = Inl (MissingColumn name)"
proof -
  let ?headers = "py_split (strip raw)"
  have ns: "strip raw \<noteq> sentinel" using assms(3) sentinel_not_time_col by auto
  have nt: "\<not> startswith (strip raw) terminator"
    using assms(3) by (rule time_col_not_terminator)
  have eq: "scan_data st (raw # rest) =
      (case list_index ?headers rpm_col of
         None \<Rightarrow> Inl (MissingColumn rpm_col)
       | Some i \<Rightarrow>
           (case list_index ?headers tq_col of
              None \<Rightarrow> Inl (MissingColumn tq_col)
            | Some j \<Rightarrow>
                (case list_index ?headers pwr_col of
                   None \<Rightarrow> Inl (MissingColumn pwr_col)
                 | Some k \<Rightarrow>
                     scan_data
                       (st\<lparr>rpm_idx := i, tq_idx := j, pwr_idx := k, header_found := True\<rparr>)
                       rest)))"
    using assms(1-3) ns nt by (simp add: Let_def)
  have missing: "rpm_col \<notin> set ?headers \<or> tq_col \<notin> set ?headers \<or> pwr_col \<notin> set ?headers"
    using assms(4) by (auto simp: required_cols_def)
  show ?thesis
  proof (cases "rpm_col \<in> set ?headers")
    case False
    then have li: "list_index ?headers rpm_col = None" by (simp add: list_index_None)
    have r: "scan_data st (raw # rest) = Inl (MissingColumn rpm_col)"
      by (simp only: eq li option.case)
    have f: "find (\<lambda>c. c \<notin> set ?headers) required_cols = Some rpm_col"
      using False by (simp add: required_cols_def)
    show ?thesis by (intro exI[of _ rpm_col] conjI f r)
  next
    case r: True
    then obtain i where i: "list_index ?headers rpm_col = Some i"
      by (rule list_index_Some[THEN exE])
    show ?thesis
    proof (cases "tq_col \<in> set ?headers")
      case False
      then have li: "list_index ?headers tq_col = None" by (simp add: list_index_None)
      have res: "scan_data st (raw # rest) = Inl (MissingColumn tq_col)"
        by (simp only: eq i li option.case)
      have f: "find (\<lambda>c. c \<notin> set ?headers) required_cols = Some tq_col"
        using False r by (simp add: required_cols_def)
      show ?thesis by (intro exI[of _ tq_col] conjI f res)
    next
      case t: True
      then obtain j where j: "list_index ?headers tq_col = Some j"
        by (rule list_index_Some[THEN exE])
      from missing r t have p: "pwr_col \<notin> set ?headers" by simp
      then have li: "list_index ?headers pwr_col = None" by (simp add: list_index_None)
      have res: "scan_data st (raw # rest) = Inl (MissingColumn pwr_col)"
        by (simp only: eq i j li option.case)
      have f: "find (\<lambda>c. c \<notin> set ?headers) required_cols = Some pwr_col"
        using p r t by (simp add: required_cols_def)
      show ?thesis by (intro exI[of _ pwr_col] conjI f res)
    qed
  qed
qed

lemma scan_data_started_missing:
  assumes "data_started st" "\<not> header_found st"
    and "find (\<lambda>l. startswith (strip l) time_col)
           (takeWhile (\<lambda>l. \<not> startswith (strip l) terminator) lines) = Some h"
    and "\<not> set required_cols \<subseteq> set (py_split (strip h))"
  shows "\<exists>name. find (\<lambda>c. c \<notin> set (py_split (strip h))) required_cols = Some name \<and>
           scan_data st lines = Inl (MissingColumn name)"
  using assms
proof (induction lines arbitrary: st)
  case Nil
  then show ?case by simp
next
  case (Cons raw rest)
  show ?case
  proof (cases "strip raw = sentinel")
    case True
    then have f: "find (\<lambda>l. startswith (strip l) time_col)
           (takeWhile (\<lambda>l. \<not> startswith (strip l) terminator) rest) = Some h"
      using Cons.prems(3) sentinel_not_terminator sentinel_not_time_col by simp
    have "scan_data st (raw # rest) = scan_data (st\<lparr>data_started := True\<rparr>) rest"
      using True by simp
    moreover have "\<exists>name. find (\<lambda>c. c \<notin> set (py_split (strip h))) required_cols = Some name \<and>
           scan_data (st\<lparr>data_started := True\<rparr>) rest = Inl (MissingColumn name)"
      using Cons.prems(2) f Cons.prems(4) by (intro Cons.IH) simp_all
    ultimately show ?thesis by simp
  next
    case ns: False
    show ?thesis
    proof (cases "startswith (strip raw) terminator")
      case True
      with Cons.prems(3) show ?thesis by simp
    next
      case nt: False
      show ?thesis
      proof (cases "startswith (strip raw) time_col")
        case True
        with Cons.prems(3) nt have "h = raw" by simp
        then show ?thesis
          using scan_data_header_row[OF Cons.prems(1,2) True, of rest] Cons.prems(4) by simp
      next
        case False
        then have f: "find (\<lambda>l. startswith (strip l) time_col)
           (takeWhile (\<lambda>l. \<not> startswith (strip l) terminator) rest) = Some h"
          using Cons.prems(3) nt by simp
        have "scan_data st (raw # rest) = scan_data st rest"
          using ns nt False Cons.prems(1,2) by (simp add: Let_def)
        then show ?thesis using Cons.IH[OF Cons.prems(1,2) f Cons.prems(4)] by simp
      qed
    qed
  qed
qed

lemma scan_data_missing:
  assumes "\<not> data_started st" "\<not> header_found st"
    and "spec_header_row lines = Some h"
    and "\<not> set required_cols \<subseteq> set (py_split (strip h))"
  shows "\<exists>name. find (\<lambda>c. c \<notin> set (py_split (strip h))) required_cols = Some name \<and>
           scan_data st lines = Inl (MissingColumn name)"
  using assms
proof (induction lines arbitrary: st)
  case Nil
  then show ?case by (simp add: spec_header_row_def spec_data_section_def spec_after_sentinel_def)
next
  case (Cons raw rest)
  show ?case
  proof (cases "strip raw = sentinel")
    case True
    then have f: "find (\<lambda>l. startswith (strip l) time_col)
           (takeWhile (\<lambda>l. \<not> startswith (strip l) terminator) rest) = Some h"
      using Cons.prems(3)
      by (simp add: spec_header_row_def spec_data_section_def spec_after_sentinel_def)
    have "scan_data st (raw # rest) = scan_data (st\<lparr>data_started := True\<rparr>) rest"
      using True by simp
    moreover have "\<exists>name. find (\<lambda>c. c \<notin> set (py_split (strip h))) required_cols = Some name \<and>
           scan_data (st\<lparr>data_started := True\<rparr>) rest = Inl (MissingColumn name)"
      using Cons.prems(2) f Cons.prems(4) by (intro scan_data_started_missing) simp_all
    ultimately show ?thesis by simp
  next
    case False
    then have f: "spec_header_row rest = Some h"
      using Cons.prems(3)
      by (simp add: spec_header_row_def spec_data_section_def spec_after_sentinel_def)
    have "scan_data st (raw # rest) = scan_data st rest"
      using False Cons.prems(1) by (simp add: Let_def)
    then show ?thesis using Cons.IH[OF Cons.prems(1,2) f Cons.prems(4)] by simp
  qed
qed

text \<open>
  Claim C1.  When the column header row of the data section (the first line that starts
  with \<open>Time_(Sec)\<close> after the sentinel line and before the terminator line) lacks one of
  the three required column names, the parse fails with \<open>MissingColumn\<close> of the first
  required name, in the order RPM, torque, power, that the row lacks; the result is the
  error alone, and \<open>process_file_content\<close> returns \<open>None\<close> instead of a report.
\<close>

theorem C1_missing_column:
  assumes "spec_header_row (splitlines text) = Some h"
    and "\<not> set required_cols \<subseteq> set (py_split (strip h))"
  shows "\<exists>name. find (\<lambda>c. c \<notin> set (py_split (strip h))) required_cols = Some name \<and>
           parse_sdp_file text = Inl (MissingColumn name) \<and>
           process_file_content py text fname = Inr None"
proof -
  obtain name where f: "find (\<lambda>c. c \<notin> set (py_split (strip h))) required_cols = Some name"
    and s: "scan_data init_state (splitlines text) = Inl (MissingColumn name)"
    using scan_data_missing[of init_state, OF _ _ assms] by (auto simp: init_state_def)
  have p: "parse_sdp_file text = Inl (MissingColumn name)"
    using s by (simp add: parse_sdp_file_def Let_def)
  have r: "process_file_content py text fname = Inr None"
    by (simp add: process_file_content_def p)
  show ?thesis by (intro exI[of _ name] conjI f p r)
qed

lemma splitlines_no_torque_file:
  "splitlines no_torque_file =
     [''PRIMARY_CHANNEL_CURVE_FIT_DATA'', ''Time_(Sec) RPM1_Motor_(rad/s) Power_(W)'',
      ''0.1 600.0 3000.0'']"
  by (simp add: no_torque_file_def LF_def splitlines_def is_linebreak_def)

lemma header_row_no_torque_file:
  "spec_header_row (splitlines no_torque_file) = Some ''Time_(Sec) RPM1_Motor_(rad/s) Power_(W)''"
  unfolding splitlines_no_torque_file
  by (simp add: spec_header_row_def spec_data_section_def spec_after_sentinel_def str_eval)

lemma split_no_torque_header:
  "py_split (strip ''Time_(Sec) RPM1_Motor_(rad/s) Power_(W)'') =
     [''Time_(Sec)'', ''RPM1_Motor_(rad/s)'', ''Power_(W)'']"
  by (simp add: str_eval)

theorem C1_witness:
  "spec_header_row (splitlines no_torque_file) = Some ''Time_(Sec) RPM1_Motor_(rad/s) Power_(W)'' \<and>
   py_split (strip ''Time_(Sec) RPM1_Motor_(rad/s) Power_(W)'') =
     [''Time_(Sec)'', ''RPM1_Motor_(rad/s)'', ''Power_(W)''] \<and>
   ''Motor_Torque_(N.m)'' \<in> set required_cols \<and>
   parse_sdp_file no_torque_file = Inl (MissingColumn ''Motor_Torque_(N.m)'') \<and>
   process_file_content Plain_Sum no_torque_file ''run.sdp'' = Inr None"
proof -
  have m: "\<not> set required_cols \<subseteq> set (py_split (strip ''Time_(Sec) RPM1_Motor_(rad/s) Power_(W)''))"
    unfolding split_no_torque_header
    by (simp add: required_cols_def rpm_col_def tq_col_def pwr_col_def)
  have f: "find (\<lambda>c. c \<notin> set (py_split (strip ''Time_(Sec) RPM1_Motor_(rad/s) Power_(W)'')))
             required_cols = Some ''Motor_Torque_(N.m)''"
    unfolding split_no_torque_header
    by (simp add: required_cols_def rpm_col_def tq_col_def pwr_col_def)
  have "parse_sdp_file no_torque_file = Inl (MissingColumn ''Motor_Torque_(N.m)'') \<and>
        process_file_content Plain_Sum no_torque_file ''run.sdp'' = Inr None"
    using C1_missing_column[OF header_row_no_torque_file m, of Plain_Sum "''run.sdp''"] f by simp
  then show ?thesis
    using header_row_no_torque_file split_no_torque_header
    by (simp add: required_cols_def tq_col_def)
qed

section \<open>The outcomes of the parser\<close>

text \<open>Without a column header row in the data section no row is decoded.\<close>

lemma scan_data_no_header_started:
  assumes "data_started st" "\<not> header_found st"
    and "find (\<lambda>l. startswith (strip l) time_col)
           (takeWhile (\<lambda>l. \<not> startswith (strip l) terminator) lines) = None"
  shows "scan_data st lines = Inr (performance_data st)"
  using assms
proof (induction lines arbitrary: st)
  case Nil
  show ?case by simp
next
  case (Cons raw rest)
  show ?case
  proof (cases "strip raw = sentinel")
    case True
    then have f: "find (\<lambda>l. startswith (strip l) time_col)
           (takeWhile (\<lambda>l. \<not> startswith (strip l) terminator) rest) = None"
      using Cons.prems(3) sentinel_not_terminator sentinel_not_time_col by simp
    have "scan_data (st\<lparr>data_started := True\<rparr>) rest =
          Inr (performance_data (st\<lparr>data_started := True\<rparr>))"
      using Cons.prems(2) f by (intro Cons.IH) simp_all
    then show ?thesis using True by simp
  next
    case ns: False
    show ?thesis
    proof (cases "startswith (strip raw) terminator")
      case True
      then show ?thesis using ns Cons.prems(1) by simp
    next
      case nt: False
      then have nh: "\<not> startswith (strip raw) time_col"
        and f: "find (\<lambda>l. startswith (strip l) time_col)
           (takeWhile (\<lambda>l. \<not> startswith (strip l) terminator) rest) = None"
        using Cons.prems(3) by (simp_all split: if_splits)
      have "scan_data st (raw # rest) = scan_data st rest"
        using ns nt nh Cons.prems(1,2) by (simp add: Let_def)
      then show ?thesis using Cons.IH[OF Cons.prems(1,2) f] by simp
    qed
  qed
qed

lemma scan_data_no_header:
  assumes "\<not> data_started st" "\<not> header_found st"
    and "spec_header_row lines = None"
  shows "scan_data st lines = Inr (performance_data st)"
  using assms
proof (induction lines arbitrary: st)
  case Nil
  show ?case by simp
next
  case (Cons raw rest)
  show ?case
  proof (cases "strip raw = sentinel")
    case True
    then have f: "find (\<lambda>l. startswith (strip l) time_col)
           (takeWhile (\<lambda>l. \<not> startswith (strip l) terminator) rest) = None"
      using Cons.prems(3)
      by (simp add: spec_header_row_def spec_data_section_def spec_after_sentinel_def)
    have "scan_data (st\<lparr>data_started := True\<rparr>) rest =
          Inr (performance_data (st\<lparr>data_started := True\<rparr>))"
      using Cons.prems(2) f by (intro scan_data_no_header_started) simp_all
    then show ?thesis using True by simp
  next
    case False
    then have f: "spec_header_row rest = None"
      using Cons.prems(3)
      by (simp add: spec_header_row_def spec_data_section_def spec_after_sentinel_def)
    have "scan_data st (raw # rest) = scan_data st rest"
      using False Cons.prems(1) by (simp add: Let_def)
    then show ?thesis using Cons.IH[OF Cons.prems(1,2) f] by simp
  qed
qed

lemma parse_no_header_row:
  assumes "spec_header_row (splitlines text) = None"
  shows "parse_sdp_file text = Inl NoDataAboveThreshold"
proof -
  have "scan_data init_state (splitlines text) = Inr (performance_data init_state)"
    using _ _ assms by (rule scan_data_no_header) (simp_all add: init_state_def)
  then show ?thesis by (simp add: parse_sdp_file_def Let_def init_state_def)
qed

text \<open>The exceptions of the row decoder.\<close>

lemma py_float_exn: "py_float s = Inl e \<Longrightarrow> e = ValueError"
  by (auto simp: py_float_def split: option.splits prod.splits)

lemma getitem_exn: "getitem xs i = Inl e \<Longrightarrow> e = IndexError"
  by (auto simp: getitem_def split: if_splits)

lemma py_round_exn: "py_round x = Inl e \<Longrightarrow> e = ValueError \<or> e = OverflowError"
  by (cases x) auto

lemma fdiv_watt_per_hp: "fdiv w watt_per_hp \<noteq> Inl e"
  by (simp add: watt_per_hp_value)

lemma decode_row_exn:
  assumes "decode_row values i j k = Inl e"
  shows "e = ValueError \<or> e = IndexError \<or> e = OverflowError"
proof -
  from assms consider
    (g) n where "getitem values n = Inl e"
  | (f) t where "py_float t = Inl e"
  | (r) x where "py_round x = Inl e"
  | (d) w where "fdiv w watt_per_hp = Inl e"
    by (auto simp: decode_row_def Let_def split: sum.splits if_splits)
  then show ?thesis
  proof cases
    case g
    then show ?thesis by (auto dest: getitem_exn)
  next
    case f
    then show ?thesis by (auto dest: py_float_exn)
  next
    case r
    then show ?thesis by (auto dest: py_round_exn)
  next
    case d
    then show ?thesis by (simp add: fdiv_watt_per_hp)
  qed
qed

lemma scan_data_Uncaught:
  "scan_data st lines = Inl (Uncaught e) \<Longrightarrow> e = OverflowError"
proof (induction lines arbitrary: st)
  case Nil
  then show ?case by simp
next
  case (Cons raw rest)
  from Cons.prems consider
    (rec) st' where "scan_data st' rest = Inl (Uncaught e)"
  | (here) "decode_row (py_split (strip raw)) (rpm_idx st) (tq_idx st) (pwr_idx st) = Inl e"
    by (simp only: scan_data.simps Let_def
        split: if_splits option.splits sum.splits exn.splits) blast+
  then show ?case
  proof cases
    case rec
    then show ?thesis by (rule Cons.IH)
  next
    case here
    from decode_row_exn[OF here] scan_data_uncaught[OF Cons.prems] show ?thesis by simp
  qed
qed

text \<open>
  The outcomes of \<open>parse_sdp_file\<close>: a result with at least one sample, one of the two
  failures that return \<open>None\<close>, or the exception \<open>OverflowError\<close>.
\<close>

lemma parse_outcomes:
  "(\<exists>p. parse_sdp_file text = Inr p \<and> data p \<noteq> []) \<or>
   parse_sdp_file text = Inl NoDataAboveThreshold \<or>
   (\<exists>c. parse_sdp_file text = Inl (MissingColumn c)) \<or>
   parse_sdp_file text = Inl (Uncaught OverflowError)"
proof (cases "scan_data init_state (splitlines text)")
  case (Inl err)
  then show ?thesis
    by (cases err) (auto simp: parse_sdp_file_def Let_def dest: scan_data_Uncaught)
next
  case (Inr samples)
  then show ?thesis by (simp add: parse_sdp_file_def Let_def)
qed

section \<open>A row that the exception handler does not cover\<close>

lemma splitlines_inf_file:
  "splitlines inf_file = scenario_header @ [''0.1 inf 50.0 3000.0'']"
  by (simp add: inf_file_def scenario_prefix_def scenario_header_def LF_def splitlines_def
      is_linebreak_def)

lemma float_inf: "py_float ''inf'' = Inr PInf"
  by (simp add: float_parse_eval strip_def is_space_def)

lemma decode_inf_row:
  "decode_row [''0.1'', ''inf'', ''50.0'', ''3000.0''] 1 2 3 = Inl OverflowError"
  by (simp add: decode_row_def getitem_def replace_comma_def float_inf rad_s_to_rpm_value
      flt_int_def fsign_def)

lemma scan_data_inf_file:
  "scan_data init_state (scenario_header @ [''0.1 inf 50.0 3000.0'']) =
     Inl (Uncaught OverflowError)"
  unfolding scan_data_scenario_header
  using decode_inf_row by (simp add: str_eval)

lemma parse_inf_file: "parse_sdp_file inf_file = Inl (Uncaught OverflowError)"
  unfolding parse_sdp_file_def Let_def splitlines_inf_file scan_data_inf_file
  by simp

text \<open>
  Claim C3.  The row \<open>0.1 inf 50.0 3000.0\<close> after the header row of the scenario: the
  angular speed is the float infinity, which is not below 5500, and \<open>round\<close> of it
  raises \<open>OverflowError\<close>.  The \<open>except\<close> clause of the row loop names \<open>ValueError\<close>
  and \<open>IndexError\<close> only, so the exception leaves \<open>parse_sdp_file\<close> and
  \<open>process_file_content\<close>: the outcome is neither a report nor one of the two failures
  that return \<open>None\<close>.
\<close>

theorem C3_overflow_escapes:
  "parse_sdp_file inf_file = Inl (Uncaught OverflowError) \<and>
   process_file_content py inf_file fname = Inl OverflowError"
  by (simp add: parse_inf_file process_file_content_def)

section \<open>The decimal separator\<close>

lemma replace_comma_Nil: "replace_comma [] = []"
  by (simp add: replace_comma_def)

lemma replace_comma_Cons:
  "replace_comma (c # cs) = (if c = CHR '','' then CHR ''.'' else c) # replace_comma cs"
  by (simp add: replace_comma_def)

lemma replace_comma_snoc:
  "replace_comma (cs @ [c]) = replace_comma cs @ [if c = CHR '','' then CHR ''.'' else c]"
  by (simp add: replace_comma_def)

lemma replace_comma_eq_Nil: "replace_comma s = [] \<longleftrightarrow> s = []"
  by (simp add: replace_comma_def)

lemma sep_equiv_replace: "sep_equiv a b \<Longrightarrow> replace_comma a = replace_comma b"
  unfolding sep_equiv_def
  by (induction rule: list_all2_induct) (auto simp: sep_char_def replace_comma_def)

lemma sep_equiv_refl: "sep_equiv a a"
  by (simp add: sep_equiv_def list_all2_same)

lemma is_space_replace: "is_space (if c = CHR '','' then CHR ''.'' else c) = is_space c"
  by (simp add: is_space_def)

lemma replace_comma_dropWhile:
  "replace_comma (dropWhile is_space s) = dropWhile is_space (replace_comma s)"
  by (induction s) (simp_all add: replace_comma_Nil replace_comma_Cons is_space_replace)

lemma replace_comma_rev: "replace_comma (rev s) = rev (replace_comma s)"
  by (simp add: replace_comma_def rev_map)

lemma replace_comma_strip: "replace_comma (strip s) = strip (replace_comma s)"
  by (simp add: strip_def replace_comma_rev replace_comma_dropWhile)

lemma replace_comma_split_from:
  "map replace_comma (split_from acc s) = split_from (replace_comma acc) (replace_comma s)"
proof (induction s arbitrary: acc)
  case Nil
  show ?case by (simp add: replace_comma_Nil replace_comma_eq_Nil)
next
  case (Cons c cs)
  show ?case
    using Cons.IH[of "acc @ [c]"] Cons.IH[of "[]"]
    by (simp add: replace_comma_Nil replace_comma_Cons replace_comma_snoc replace_comma_eq_Nil
        is_space_replace)
qed

lemma replace_comma_py_split: "map replace_comma (py_split s) = py_split (replace_comma s)"
  unfolding py_split_def using replace_comma_split_from[of "[]" s]
  by (simp add: replace_comma_Nil)

lemma replace_comma_idem: "replace_comma (replace_comma s) = replace_comma s"
  by (induction s) (simp_all add: replace_comma_Nil replace_comma_Cons)

lemma replace_comma_plain:
  "CHR '','' \<notin> set p \<Longrightarrow> replace_comma p = p"
  by (induction p) (auto simp: replace_comma_Nil replace_comma_Cons)

lemma replace_comma_eq_plain:
  assumes "replace_comma y = p" "CHR ''.'' \<notin> set p"
  shows "y = p"
  using assms
  by (induction y arbitrary: p) (auto simp: replace_comma_Nil replace_comma_Cons split: if_splits)

text \<open>
  Two strings that are equal up to the separator are both equal to a string without a
  separator, or both different from it; and the same for a prefix.
\<close>

lemma sep_eq_plain:
  assumes "replace_comma a = replace_comma b"
    and "CHR '','' \<notin> set p" "CHR ''.'' \<notin> set p"
  shows "a = p \<longleftrightarrow> b = p"
proof
  assume "a = p"
  then have "replace_comma b = p" using assms(1,2) by (simp add: replace_comma_plain)
  then show "b = p" using assms(3) by (rule replace_comma_eq_plain)
next
  assume "b = p"
  then have "replace_comma a = p" using assms(1,2) by (simp add: replace_comma_plain)
  then show "a = p" using assms(3) by (rule replace_comma_eq_plain)
qed

lemma replace_comma_take: "replace_comma (take n s) = take n (replace_comma s)"
  by (simp add: replace_comma_def take_map)

lemma sep_startswith:
  assumes "replace_comma a = replace_comma b"
    and "CHR '','' \<notin> set p" "CHR ''.'' \<notin> set p"
  shows "startswith a p \<longleftrightarrow> startswith b p"
proof -
  have "replace_comma (take (length p) a) = replace_comma (take (length p) b)"
    using assms(1) by (simp add: replace_comma_take)
  then show ?thesis
    unfolding startswith_def using assms(2,3) by (rule sep_eq_plain)
qed

text \<open>The row decoder replaces the commas of each token it reads.\<close>

lemma getitem_map:
  "getitem (map f xs) i = (case getitem xs i of Inl e \<Rightarrow> Inl e | Inr x \<Rightarrow> Inr (f x))"
  by (auto simp: getitem_def)

lemma decode_row_replace:
  "decode_row (map replace_comma values) i j k = decode_row values i j k"
  by (simp add: decode_row_def getitem_map replace_comma_idem Let_def
      split: sum.splits cong: sum.case_cong if_cong)

lemma decode_row_sep:
  assumes "map replace_comma v1 = map replace_comma v2"
  shows "decode_row v1 i j k = decode_row v2 i j k"
proof -
  have "decode_row v1 i j k = decode_row (map replace_comma v1) i j k"
    by (rule decode_row_replace[symmetric])
  also have "\<dots> = decode_row (map replace_comma v2) i j k" by (simp only: assms)
  also have "\<dots> = decode_row v2 i j k" by (rule decode_row_replace)
  finally show ?thesis .
qed

text \<open>A row after the header row, in data mode.\<close>

lemma scan_data_row_step:
  assumes "data_started st" "header_found st"
  shows "scan_data st (raw # rest) =
     (if strip raw = sentinel then scan_data (st\<lparr>data_started := True\<rparr>) rest
      else if startswith (strip raw) terminator then Inr (performance_data st)
      else if strip raw = [] then scan_data st rest
      else if int (length (py_split (strip raw)))
                \<le> max (max (rpm_idx st) (tq_idx st)) (pwr_idx st)
      then scan_data st rest
      else
        (case decode_row (py_split (strip raw)) (rpm_idx st) (tq_idx st) (pwr_idx st) of
           Inl ValueError \<Rightarrow> scan_data st rest
         | Inl IndexError \<Rightarrow> scan_data st rest
         | Inl e \<Rightarrow> Inl (Uncaught e)
         | Inr None \<Rightarrow> scan_data st rest
         | Inr (Some p) \<Rightarrow>
             scan_data (st\<lparr>performance_data := performance_data st @ [p]\<rparr>) rest))"
  using assms by (simp add: Let_def)

lemma scan_data_sep_rows:
  assumes "list_all2 sep_equiv r1 r2" "data_started st" "header_found st"
  shows "scan_data st r1 = scan_data st r2"
  using assms
proof (induction arbitrary: st rule: list_all2_induct)
  case Nil
  show ?case by simp
next
  case (Cons a r1 b r2)
  have rc: "replace_comma (strip a) = replace_comma (strip b)"
    using sep_equiv_replace[OF Cons.hyps(1)] by (simp add: replace_comma_strip)
  have s: "strip a = sentinel \<longleftrightarrow> strip b = sentinel"
    using rc by (rule sep_eq_plain) (simp_all add: sentinel_def)
  have t: "startswith (strip a) terminator \<longleftrightarrow> startswith (strip b) terminator"
    using rc by (rule sep_startswith) (simp_all add: terminator_def)
  have e: "strip a = [] \<longleftrightarrow> strip b = []"
    using rc by (rule sep_eq_plain) simp_all
  have v: "map replace_comma (py_split (strip a)) = map replace_comma (py_split (strip b))"
    by (simp only: replace_comma_py_split rc)
  have l: "length (py_split (strip a)) = length (py_split (strip b))"
    using arg_cong[OF v, of length] by simp
  have d: "decode_row (py_split (strip a)) i j k = decode_row (py_split (strip b)) i j k"
    for i j k
    using v by (rule decode_row_sep)
  have ih1: "scan_data (st\<lparr>data_started := True\<rparr>) r1 =
             scan_data (st\<lparr>data_started := True\<rparr>) r2"
    using Cons.prems by (intro Cons.IH) simp_all
  have ih2: "scan_data st r1 = scan_data st r2"
    by (intro Cons.IH Cons.prems)
  have ih3: "scan_data (st\<lparr>performance_data := performance_data st @ [p]\<rparr>) r1 =
             scan_data (st\<lparr>performance_data := performance_data st @ [p]\<rparr>) r2" for p
    using Cons.prems by (intro Cons.IH) simp_all
  show ?case
    unfolding scan_data_row_step[OF Cons.prems] s t e l d ih1 ih2
    by (simp add: ih3 split: sum.splits exn.splits option.splits)
qed

lemma scan_data_sep_append:
  assumes "list_all2 sep_equiv r1 r2" "data_started st" "header_found st"
  shows "scan_data st (pre @ r1) = scan_data st (pre @ r2)"
proof -
  have "list_all2 sep_equiv pre pre" by (simp add: list_all2_same sep_equiv_refl)
  then have "list_all2 sep_equiv (pre @ r1) (pre @ r2)"
    using assms(1) by (rule list_all2_appendI)
  then show ?thesis using assms(2,3) by (rule scan_data_sep_rows)
qed

lemma scan_data_sep_started:
  assumes "list_all2 sep_equiv r1 r2"
    and "data_started st" "\<not> header_found st"
    and "find (\<lambda>l. startswith (strip l) time_col)
           (takeWhile (\<lambda>l. \<not> startswith (strip l) terminator) pre) = Some h"
  shows "scan_data st (pre @ r1) = scan_data st (pre @ r2)"
  using assms(2-4)
proof (induction pre arbitrary: st)
  case Nil
  then show ?case by simp
next
  case (Cons raw rest)
  show ?case
  proof (cases "strip raw = sentinel")
    case True
    then have f: "find (\<lambda>l. startswith (strip l) time_col)
           (takeWhile (\<lambda>l. \<not> startswith (strip l) terminator) rest) = Some h"
      using Cons.prems(3) sentinel_not_terminator sentinel_not_time_col by simp
    have u: "scan_data st ((raw # rest) @ r) =
             scan_data (st\<lparr>data_started := True\<rparr>) (rest @ r)" for r
      using True by simp
    have "scan_data (st\<lparr>data_started := True\<rparr>) (rest @ r1) =
          scan_data (st\<lparr>data_started := True\<rparr>) (rest @ r2)"
      using Cons.prems(2) f by (intro Cons.IH) simp_all
    then show ?thesis by (simp only: u)
  next
    case ns: False
    show ?thesis
    proof (cases "startswith (strip raw) terminator")
      case True
      then show ?thesis using ns Cons.prems(1) by simp
    next
      case nt: False
      show ?thesis
      proof (cases "startswith (strip raw) time_col")
        case True
        let ?headers = "py_split (strip raw)"
        have u: "scan_data st ((raw # rest) @ r) =
            (case list_index ?headers rpm_col of
               None \<Rightarrow> Inl (MissingColumn rpm_col)
             | Some i \<Rightarrow>
                 (case list_index ?headers tq_col of
                    None \<Rightarrow> Inl (MissingColumn tq_col)
                  | Some j \<Rightarrow>
                      (case list_index ?headers pwr_col of
                         None \<Rightarrow> Inl (MissingColumn pwr_col)
                       | Some k \<Rightarrow>
                           scan_data
                             (st\<lparr>rpm_idx := i, tq_idx := j, pwr_idx := k,
                                 header_found := True\<rparr>)
                             (rest @ r))))" for r
          using Cons.prems(1,2) ns nt True by (simp add: Let_def)
        have ih: "scan_data
                    (st\<lparr>rpm_idx := i, tq_idx := j, pwr_idx := k, header_found := True\<rparr>)
                    (rest @ r1) =
                  scan_data
                    (st\<lparr>rpm_idx := i, tq_idx := j, pwr_idx := k, header_found := True\<rparr>)
                    (rest @ r2)" for i j k
          using Cons.prems(1) by (intro scan_data_sep_append assms(1)) simp_all
        show ?thesis unfolding u by (simp add: ih split: option.splits)
      next
        case False
        then have f: "find (\<lambda>l. startswith (strip l) time_col)
           (takeWhile (\<lambda>l. \<not> startswith (strip l) terminator) rest) = Some h"
          using Cons.prems(3) nt by simp
        have u: "scan_data st ((raw # rest) @ r) = scan_data st (rest @ r)" for r
          using ns nt False Cons.prems(1,2) by (simp add: Let_def)
        show ?thesis using Cons.IH[OF Cons.prems(1,2) f] by (simp only: u)
      qed
    qed
  qed
qed

lemma scan_data_sep_prefix:
  assumes "list_all2 sep_equiv r1 r2"
    and "\<not> data_started st" "\<not> header_found st"
    and "spec_header_row pre = Some h"
  shows "scan_data st (pre @ r1) = scan_data st (pre @ r2)"
  using assms(2-4)
proof (induction pre arbitrary: st)
  case Nil
  then show ?case by (simp add: spec_header_row_def spec_data_section_def spec_after_sentinel_def)
next
  case (Cons raw rest)
  show ?case
  proof (cases "strip raw = sentinel")
    case True
    then have f: "find (\<lambda>l. startswith (strip l) time_col)
           (takeWhile (\<lambda>l. \<not> startswith (strip l) terminator) rest) = Some h"
      using Cons.prems(3)
      by (simp add: spec_header_row_def spec_data_section_def spec_after_sentinel_def)
    have u: "scan_data st ((raw # rest) @ r) =
             scan_data (st\<lparr>data_started := True\<rparr>) (rest @ r)" for r
      using True by simp
    have "scan_data (st\<lparr>data_started := True\<rparr>) (rest @ r1) =
          scan_data (st\<lparr>data_started := True\<rparr>) (rest @ r2)"
      using Cons.prems(2) f by (intro scan_data_sep_started[OF assms(1)]) simp_all
    then show ?thesis by (simp only: u)
  next
    case False
    then have f: "spec_header_row rest = Some h"
      using Cons.prems(3)
      by (simp add: spec_header_row_def spec_data_section_def spec_after_sentinel_def)
    have u: "scan_data st ((raw # rest) @ r) = scan_data st (rest @ r)" for r
      using False Cons.prems(1) by (simp add: Let_def)
    show ?thesis using Cons.IH[OF Cons.prems(1,2) f] by (simp only: u)
  qed
qed

text \<open>The first loop stops at the sentinel line.\<close>

lemma scan_config_prefix:
  assumes "\<exists>l \<in> set pre. strip l = sentinel"
  shows "scan_config cfg (pre @ r) = scan_config cfg pre"
  using assms
proof (induction pre arbitrary: cfg)
  case Nil
  then show ?case by simp
next
  case (Cons line rest)
  show ?case
  proof (cases "strip line = sentinel")
    case True
    then show ?thesis by (simp add: Let_def)
  next
    case False
    with Cons.prems have "\<exists>l \<in> set rest. strip l = sentinel" by simp
    then have "scan_config c (rest @ r) = scan_config c rest" for c by (rule Cons.IH)
    then show ?thesis using False by (simp add: Let_def)
  qed
qed

lemma header_row_sentinel:
  assumes "spec_header_row pre = Some h"
  shows "\<exists>l \<in> set pre. strip l = sentinel"
proof (rule ccontr)
  assume "\<not> (\<exists>l \<in> set pre. strip l = sentinel)"
  then have "dropWhile (\<lambda>l. strip l \<noteq> sentinel) pre = []" by simp
  with assms show False
    by (simp add: spec_header_row_def spec_data_section_def spec_after_sentinel_def)
qed

lemma parse_sep:
  assumes "splitlines t1 = pre @ rows1" "splitlines t2 = pre @ rows2"
    and "spec_header_row pre = Some h"
    and "list_all2 sep_equiv rows1 rows2"
  shows "parse_sdp_file t1 = parse_sdp_file t2"
proof -
  have c: "scan_config [] (pre @ r) = scan_config [] pre" for r
    using header_row_sentinel[OF assms(3)] by (rule scan_config_prefix)
  have d: "scan_data init_state (pre @ rows1) = scan_data init_state (pre @ rows2)"
    using assms(4) _ _ assms(3) by (rule scan_data_sep_prefix) (simp_all add: init_state_def)
  show ?thesis
    unfolding parse_sdp_file_def Let_def assms(1,2) c d by (rule refl)
qed

lemma tokens_sep:
  assumes "sep_equiv x y"
  shows "list_all2 (\<lambda>a b. py_float (replace_comma a) = py_float (replace_comma b))
           (py_split (strip x)) (py_split (strip y))"
proof -
  have "replace_comma (strip x) = replace_comma (strip y)"
    using sep_equiv_replace[OF assms] by (simp add: replace_comma_strip)
  then have "map replace_comma (py_split (strip x)) = map replace_comma (py_split (strip y))"
    by (simp only: replace_comma_py_split)
  then have "list_all2 (\<lambda>a b. replace_comma a = replace_comma b)
               (py_split (strip x)) (py_split (strip y))"
    by (simp add: list_all2_conv_all_nth list_eq_iff_nth_eq)
  then show ?thesis by (rule list_all2_mono) simp
qed

text \<open>
  Claim C8.  Two texts whose lines are the same up to and beyond the column header row
  of the data section, and whose following lines differ only in that one has a comma
  where the other has a period: the corresponding tokens of corresponding rows are
  decoded to the same float, and the two parses, and the two reports, are the same.
\<close>

theorem C8_decimal_separator:
  assumes "splitlines t1 = pre @ rows1" "splitlines t2 = pre @ rows2"
    and "spec_header_row pre = Some h"
    and "list_all2 sep_equiv rows1 rows2"
  shows "list_all2
           (\<lambda>x y. list_all2 (\<lambda>a b. py_float (replace_comma a) = py_float (replace_comma b))
                     (py_split (strip x)) (py_split (strip y)))
           rows1 rows2 \<and>
         parse_sdp_file t1 = parse_sdp_file t2 \<and>
         process_file_content py t1 fname = process_file_content py t2 fname"
proof -
  have a: "list_all2
           (\<lambda>x y. list_all2 (\<lambda>a b. py_float (replace_comma a) = py_float (replace_comma b))
                     (py_split (strip x)) (py_split (strip y)))
           rows1 rows2"
    using assms(4) by (rule list_all2_mono) (rule tokens_sep)
  have b: "parse_sdp_file t1 = parse_sdp_file t2"
    using assms by (rule parse_sep)
  have c: "process_file_content py t1 fname = process_file_content py t2 fname"
    by (simp only: process_file_content_def b)
  show ?thesis by (intro conjI a b c)
qed

lemma splitlines_scenario_commas:
  "splitlines scenario_commas = scenario_header @ [''0.1 600,0 50,0 3000,0'']"
  by (simp add: scenario_commas_def scenario_prefix_def scenario_header_def LF_def
      splitlines_def is_linebreak_def)

lemma header_row_scenario:
  "spec_header_row scenario_header =
     Some ''Time_(Sec) RPM1_Motor_(rad/s) Motor_Torque_(N.m) Power_(W)''"
  by (simp add: scenario_header_def spec_header_row_def spec_data_section_def
      spec_after_sentinel_def str_eval)

lemma sep_equiv_scenario_row: "sep_equiv ''0.1 600.0 50.0 3000.0'' ''0.1 600,0 50,0 3000,0''"
  by (simp add: sep_equiv_def sep_char_def)

theorem C8_witness:
  "splitlines scenario = scenario_header @ [''0.1 600.0 50.0 3000.0''] \<and>
   splitlines scenario_commas = scenario_header @ [''0.1 600,0 50,0 3000,0''] \<and>
   spec_header_row scenario_header =
     Some ''Time_(Sec) RPM1_Motor_(rad/s) Motor_Torque_(N.m) Power_(W)'' \<and>
   sep_equiv ''0.1 600.0 50.0 3000.0'' ''0.1 600,0 50,0 3000,0'' \<and>
   py_float (replace_comma ''600,0'') = py_float (replace_comma ''600.0'') \<and>
   parse_sdp_file scenario_commas = parse_sdp_file scenario \<and>
   parse_sdp_file scenario_commas =
     Inr \<lparr>config = [(''Gear_Ratio'', ''4.10''), (''Roller_Diameter'', ''8.0'')],
          data = [\<lparr>rpm = 5730, torque = Fin 50, hp = rnd64 (402 / 100)\<rparr>]\<rparr> \<and>
   process_file_content Plain_Sum scenario_commas ''run.sdp'' =
     process_file_content Plain_Sum scenario ''run.sdp''"
proof -
  have r: "list_all2 sep_equiv [''0.1 600.0 50.0 3000.0''] [''0.1 600,0 50,0 3000,0'']"
    using sep_equiv_scenario_row by simp
  note t = C8_decimal_separator[OF splitlines_scenario splitlines_scenario_commas
      header_row_scenario r, of Plain_Sum "''run.sdp''"]
  have p: "parse_sdp_file scenario_commas = parse_sdp_file scenario"
    using t by simp
  have q: "process_file_content Plain_Sum scenario_commas ''run.sdp'' =
           process_file_content Plain_Sum scenario ''run.sdp''"
    using t by simp
  have f: "py_float (replace_comma ''600,0'') = py_float (replace_comma ''600.0'')"
    by (simp add: replace_comma_def)
  have v: "parse_sdp_file scenario_commas =
     Inr \<lparr>config = [(''Gear_Ratio'', ''4.10''), (''Roller_Diameter'', ''8.0'')],
          data = [\<lparr>rpm = 5730, torque = Fin 50, hp = rnd64 (402 / 100)\<rparr>]\<rparr>"
    unfolding p by (rule parse_scenario)
  show ?thesis
    by (intro conjI splitlines_scenario splitlines_scenario_commas header_row_scenario
        sep_equiv_scenario_row f p v q)
qed

end
